theory Spec2Isabelle
  imports Complex_Main
begin

section \<open>Values of the host language\<close>

text \<open>
  A JavaScript \<^verbatim>\<open>number\<close> that carries an amount is modelled as an exact rational or
  \<^verbatim>\<open>NaN\<close>. Rounding of IEEE doubles, the infinities and the sign of zero are outside
  the model. Block numbers, sequence numbers and page sizes are integers; a \<^verbatim>\<open>Date\<close> is
  the number of milliseconds since the epoch, so \<^verbatim>\<open>new Date(0)\<close> is \<open>0\<close>.
\<close>

datatype number = Num rat | NaN

type_synonym date = nat

text \<open>Unary minus (\<^verbatim>\<open>-action.Amount\<close>, \<^verbatim>\<open>-value\<close>).\<close>

fun neg :: "number \<Rightarrow> number" where
  "neg (Num r) = Num (- r)"
| "neg NaN = NaN"

text \<open>Addition, as the \<^verbatim>\<open>$sum\<close> accumulator of the aggregation uses it.\<close>

fun add :: "number \<Rightarrow> number \<Rightarrow> number" where
  "add (Num a) (Num b) = Num (a + b)"
| "add _ _ = NaN"

subsection \<open>Decimal strings\<close>

definition digit_char :: "nat \<Rightarrow> char" where
  "digit_char d = ''0123456789'' ! d"

text \<open>The decimal digits of a natural number, most significant first.\<close>

fun decimal :: "nat \<Rightarrow> string" where
  "decimal n =
     (if n < 10 then [digit_char n] else decimal (n div 10) @ [digit_char (n mod 10)])"

declare decimal.simps [simp del]

text \<open>
  \<^verbatim>\<open>Number.prototype.toFixed()\<close> and \<^verbatim>\<open>toString()\<close> on an integer (below \<open>10^21\<close>):
  its decimal digits, with a minus sign when negative.
\<close>

definition toFixed :: "int \<Rightarrow> string" where
  "toFixed i = (if i < 0 then CHR ''-'' # decimal (nat (- i)) else decimal (nat i))"

definition toString :: "nat \<Rightarrow> string" where
  "toString n = toFixed (int n)"

definition isWhiteSpace :: "char \<Rightarrow> bool" where
  "isWhiteSpace c = (c \<in> {CHR '' '', CHR 0x09, CHR 0x0A, CHR 0x0B, CHR 0x0C, CHR 0x0D})"

definition digitValue :: "char \<Rightarrow> nat option" where
  "digitValue c =
     (let n = (of_char c :: nat) in if 48 \<le> n \<and> n \<le> 57 then Some (n - 48) else None)"

definition hexDigitValue :: "char \<Rightarrow> nat option" where
  "hexDigitValue c =
     (let n = (of_char c :: nat) in
      if 48 \<le> n \<and> n \<le> 57 then Some (n - 48)
      else if 97 \<le> n \<and> n \<le> 102 then Some (n - 87)
      else if 65 \<le> n \<and> n \<le> 70 then Some (n - 55)
      else None)"

text \<open>
  Reads digits of the given radix as far as they go; the accumulator is \<open>None\<close> until a
  first digit has been read.
\<close>

fun parseDigits :: "nat \<Rightarrow> (char \<Rightarrow> nat option) \<Rightarrow> nat option \<Rightarrow> string \<Rightarrow> nat option" where
  "parseDigits radix val acc [] = acc"
| "parseDigits radix val acc (c # cs) =
     (case val c of
        None \<Rightarrow> acc
      | Some d \<Rightarrow>
          parseDigits radix val (Some (radix * (case acc of None \<Rightarrow> 0 | Some a \<Rightarrow> a) + d)) cs)"

text \<open>
  The builtin \<^verbatim>\<open>parseInt(string)\<close>: leading white space is skipped, a sign is read, a
  prefix \<^verbatim>\<open>0x\<close> selects radix 16, and the longest prefix of digits is the value.
  \<open>None\<close> is \<^verbatim>\<open>NaN\<close>. The argument \<^verbatim>\<open>undefined\<close> (an absent string) reads as the
  text \<^verbatim>\<open>undefined\<close>, which has no digits.
\<close>

definition parseInt :: "string option \<Rightarrow> int option" where
  "parseInt arg =
     (case arg of
        None \<Rightarrow> None
      | Some s \<Rightarrow>
          (let s1 = dropWhile isWhiteSpace s;
               (sign, s2) =
                 (case s1 of
                    c # r \<Rightarrow>
                      if c = CHR ''-'' then (- 1 :: int, r)
                      else if c = CHR ''+'' then (1, r)
                      else (1, s1)
                  | [] \<Rightarrow> (1, s1))
           in case s2 of
                c0 # c1 # r \<Rightarrow>
                  if c0 = CHR ''0'' \<and> (c1 = CHR ''x'' \<or> c1 = CHR ''X'')
                  then map_option (\<lambda>n. sign * int n) (parseDigits 16 hexDigitValue None r)
                  else map_option (\<lambda>n. sign * int n) (parseDigits 10 digitValue None s2)
              | _ \<Rightarrow> map_option (\<lambda>n. sign * int n) (parseDigits 10 digitValue None s2)))"

text \<open>
  The builtin \<^verbatim>\<open>parseFloat(string)\<close> on the decimal literals without exponent: white
  space, a sign, digits, and a fraction after a point. \<^verbatim>\<open>NaN\<close> when neither the integer
  part nor the fraction has a digit.
\<close>

definition isDigit :: "char \<Rightarrow> bool" where
  "isDigit c = (digitValue c \<noteq> None)"

definition digitsValue :: "string \<Rightarrow> nat" where
  "digitsValue ds = (case parseDigits 10 digitValue None ds of None \<Rightarrow> 0 | Some n \<Rightarrow> n)"

definition parseFloat :: "string \<Rightarrow> number" where
  "parseFloat s =
     (let s1 = dropWhile isWhiteSpace s;
          (sign, s2) =
            (case s1 of
               c # r \<Rightarrow>
                 if c = CHR ''-'' then (- 1 :: rat, r)
                 else if c = CHR ''+'' then (1, r)
                 else (1, s1)
             | [] \<Rightarrow> (1, s1));
          ip = takeWhile isDigit s2;
          rest = dropWhile isDigit s2;
          fp = (case rest of c # r \<Rightarrow> if c = CHR ''.'' then takeWhile isDigit r else [] | [] \<Rightarrow> [])
      in if ip = [] \<and> fp = [] then NaN
         else Num (sign * (of_nat (digitsValue ip) + of_nat (digitsValue fp) / 10 ^ length fp)))"

text \<open>
  \<^verbatim>\<open>s.split(" ", 2)\<close>: the text before the first space, and the text between the first
  and the second space when there is a first space (\<^verbatim>\<open>parts[1]\<close> is \<^verbatim>\<open>undefined\<close>
  otherwise).
\<close>

definition split2 :: "string \<Rightarrow> string \<times> string option" where
  "split2 s =
     (takeWhile (\<lambda>c. c \<noteq> CHR '' '') s,
      case dropWhile (\<lambda>c. c \<noteq> CHR '' '') s of
        [] \<Rightarrow> None
      | _ # r \<Rightarrow> Some (takeWhile (\<lambda>c. c \<noteq> CHR '' '') r))"

section \<open>BalanceRepository\<close>

text \<open>
  A document of the collection \<^verbatim>\<open>SteemBalances\<close>. Every field but \<^verbatim>\<open>_id\<close> may be
  absent: \<^verbatim>\<open>update\<close> can create a document that holds \<^verbatim>\<open>IsCancelled\<close> only. The
  collection is the list of its documents with their \<^verbatim>\<open>_id\<close>, in insertion order.
\<close>

record balance_doc =
  Address :: "string option"
  AssetId :: "string option"
  OperationOrTxId :: "string option"
  Amount :: "number option"
  AmountInBaseUnit :: "number option"
  Block :: "nat option"
  IsObservable :: "bool option"
  IsCancelled :: "bool option"

definition empty_doc :: balance_doc where
  "empty_doc =
     \<lparr>Address = None, AssetId = None, OperationOrTxId = None, Amount = None,
      AmountInBaseUnit = None, Block = None, IsObservable = None, IsCancelled = None\<rparr>"

record balance_db =
  addressCollection :: "string set"
  balanceCollection :: "(string \<times> balance_doc) list"

text \<open>
  \<^verbatim>\<open>updateOne({_id: id}, {$set: ...}, {upsert: true})\<close>: the document with that id is
  changed where it stands; when there is none, a new one is appended.
\<close>

fun updateOne :: "string \<Rightarrow> (balance_doc \<Rightarrow> balance_doc) \<Rightarrow> (string \<times> balance_doc) list
    \<Rightarrow> (string \<times> balance_doc) list" where
  "updateOne ident f [] = [(ident, f empty_doc)]"
| "updateOne ident f ((i, d) # rest) =
     (if i = ident then (i, f d) # rest else (i, d) # updateOne ident f rest)"

definition updateMany :: "(balance_doc \<Rightarrow> bool) \<Rightarrow> (balance_doc \<Rightarrow> balance_doc)
    \<Rightarrow> (string \<times> balance_doc) list \<Rightarrow> (string \<times> balance_doc) list" where
  "updateMany p f docs = map (\<lambda>(i, d). if p d then (i, f d) else (i, d)) docs"

definition BalanceRepository_observe :: "string \<Rightarrow> balance_db \<Rightarrow> balance_db" where
  "BalanceRepository_observe address db =
     db\<lparr>addressCollection := insert address (addressCollection db),
        balanceCollection :=
          updateMany (\<lambda>d. Address d = Some address) (\<lambda>d. d\<lparr>IsObservable := Some True\<rparr>)
            (balanceCollection db)\<rparr>"

definition BalanceRepository_isObservable :: "balance_db \<Rightarrow> string \<Rightarrow> bool" where
  "BalanceRepository_isObservable db address = (address \<in> addressCollection db)"

definition BalanceRepository_remove :: "string \<Rightarrow> balance_db \<Rightarrow> balance_db" where
  "BalanceRepository_remove address db =
     db\<lparr>addressCollection := addressCollection db - {address},
        balanceCollection :=
          updateMany (\<lambda>d. Address d = Some address) (\<lambda>d. d\<lparr>IsObservable := Some False\<rparr>)
            (balanceCollection db)\<rparr>"

definition balanceId :: "string \<Rightarrow> string \<Rightarrow> string \<Rightarrow> string" where
  "balanceId address assetId operationOrTxId =
     address @ ''_'' @ assetId @ ''_'' @ operationOrTxId"

definition BalanceRepository_upsert :: "string \<Rightarrow> string \<Rightarrow> string \<Rightarrow> number \<Rightarrow> number \<Rightarrow> nat
    \<Rightarrow> balance_db \<Rightarrow> balance_db" where
  "BalanceRepository_upsert address assetId operationOrTxId amount amountInBaseUnit block db =
     (let ident = balanceId address assetId operationOrTxId;
          isObservable = BalanceRepository_isObservable db address
      in db\<lparr>balanceCollection :=
           updateOne ident
             (\<lambda>d. d\<lparr>Address := Some address, AssetId := Some assetId,
                    OperationOrTxId := Some operationOrTxId, Amount := Some amount,
                    AmountInBaseUnit := Some amountInBaseUnit, Block := Some block,
                    IsObservable := Some isObservable\<rparr>)
             (balanceCollection db)\<rparr>)"

definition BalanceRepository_update :: "string \<Rightarrow> string \<Rightarrow> string \<Rightarrow> bool \<Rightarrow> balance_db
    \<Rightarrow> balance_db" where
  "BalanceRepository_update address assetId operationOrTxId isCancelled db =
     db\<lparr>balanceCollection :=
          updateOne (balanceId address assetId operationOrTxId)
            (\<lambda>d. d\<lparr>IsCancelled := Some isCancelled\<rparr>) (balanceCollection db)\<rparr>"

subsection \<open>The aggregation pipeline\<close>

text \<open>
  The result of the \<^verbatim>\<open>$group\<close> stage: \<^verbatim>\<open>_id\<close> is the pair of \<^verbatim>\<open>Address\<close> and
  \<^verbatim>\<open>AssetId\<close>; the sums skip a document without the field, and the maximum is absent
  when no document of the group has a block.
\<close>

record balance_entity =
  groupId :: "string option \<times> string option"
  sumAmount :: number
  sumAmountInBaseUnit :: number
  maxBlock :: "nat option"

definition groupKey :: "balance_doc \<Rightarrow> string option \<times> string option" where
  "groupKey d = (Address d, AssetId d)"

definition sumField :: "(balance_doc \<Rightarrow> number option) \<Rightarrow> balance_doc list \<Rightarrow> number" where
  "sumField f ds = foldl (\<lambda>acc d. case f d of None \<Rightarrow> acc | Some v \<Rightarrow> add acc v) (Num 0) ds"

definition maxField :: "(balance_doc \<Rightarrow> nat option) \<Rightarrow> balance_doc list \<Rightarrow> nat option" where
  "maxField f ds =
     foldl (\<lambda>acc d. case f d of
                       None \<Rightarrow> acc
                     | Some v \<Rightarrow> (case acc of None \<Rightarrow> Some v | Some m \<Rightarrow> Some (max m v)))
       None ds"

text \<open>The keys of the groups, each once, in the order of their first document.\<close>

fun groupKeys :: "balance_doc list \<Rightarrow> (string option \<times> string option) list" where
  "groupKeys [] = []"
| "groupKeys (d # ds) = groupKey d # filter (\<lambda>k. k \<noteq> groupKey d) (groupKeys ds)"

definition groupStage :: "balance_doc list \<Rightarrow> balance_entity list" where
  "groupStage ds =
     map (\<lambda>k. \<lparr>groupId = k,
               sumAmount = sumField Amount (filter (\<lambda>d. groupKey d = k) ds),
               sumAmountInBaseUnit = sumField AmountInBaseUnit (filter (\<lambda>d. groupKey d = k) ds),
               maxBlock = maxField Block (filter (\<lambda>d. groupKey d = k) ds)\<rparr>)
       (groupKeys ds)"

text \<open>\<^verbatim>\<open>get(address, assetId)\<close>: \<^verbatim>\<open>next()\<close> of the cursor, \<open>None\<close> when no group exists.\<close>

definition BalanceRepository_get :: "balance_db \<Rightarrow> string \<Rightarrow> string \<Rightarrow> balance_entity option" where
  "BalanceRepository_get db address assetId =
     (case groupStage
             (filter (\<lambda>d. Address d = Some address \<and> AssetId d = Some assetId
                           \<and> IsCancelled d \<noteq> Some True)
                (map snd (balanceCollection db))) of
        [] \<Rightarrow> None
      | e # _ \<Rightarrow> Some e)"

text \<open>
  The groups the paginated query ranges over: not cancelled and observable. The store
  does not promise an order of the groups; the model fixes the order of first appearance,
  the same at every call.
\<close>

definition observableGroups :: "balance_db \<Rightarrow> balance_entity list" where
  "observableGroups db =
     groupStage
       (filter (\<lambda>d. IsCancelled d \<noteq> Some True \<and> IsObservable d = Some True)
          (map snd (balanceCollection db)))"

datatype failure = MongoError | TypeError

record query_result =
  items :: "balance_entity list"
  continuation :: "string option"

text \<open>
  \<^verbatim>\<open>get(take, continuation)\<close>. The store rejects a negative \<^verbatim>\<open>$skip\<close> and a
  \<^verbatim>\<open>$limit\<close> that is not positive.
\<close>

definition BalanceRepository_getPage :: "balance_db \<Rightarrow> int \<Rightarrow> string option
    \<Rightarrow> failure + query_result" where
  "BalanceRepository_getPage db addressOrTake assetIdOrcontinuation =
     (let skip = (case parseInt assetIdOrcontinuation of None \<Rightarrow> 0 | Some n \<Rightarrow> n)
      in if skip < 0 \<or> addressOrTake \<le> 0 then Inl MongoError
         else
           (let entities = take (nat addressOrTake) (drop (nat skip) (observableGroups db))
            in Inr \<lparr>items = entities,
                    continuation =
                      (if int (length entities) < addressOrTake then None
                       else Some (toFixed (skip + addressOrTake)))\<rparr>))"

definition validateContinuation :: "string option \<Rightarrow> bool" where
  "validateContinuation c =
     (case c of
        None \<Rightarrow> True
      | Some s \<Rightarrow> s = [] \<or> (parseInt (Some s) \<noteq> None \<and> s \<noteq> [] \<and> list_all isDigit s))"

section \<open>ParamsRepository\<close>

record ParamsEntity =
  LastProcessedIrreversibleBlockTime :: "date option"
  NextActionSequence :: "nat option"

text \<open>The argument object of \<^verbatim>\<open>upsert\<close>; both of its fields are optional.\<close>

record params_arg =
  arg_nextActionSequence :: "nat option"
  arg_lastProcessedIrreversibleBlockTime :: "date option"

text \<open>
  Modelled from the spec: \<^verbatim>\<open>AzureRepository.insertOrMerge\<close> and \<^verbatim>\<open>select\<close> (module
  \<^verbatim>\<open>./azure\<close>) are not among the sources. The checkpoint is one row; a write inserts the
  row when there is none and otherwise merges the written entity into it, so that a
  property the entity leaves undefined keeps its stored value (the sequence number
  "never decreases", also across the expiry sweep's write). \<^verbatim>\<open>select\<close> returns the row,
  or nothing when the table has none.
\<close>

definition insertOrMerge :: "ParamsEntity \<Rightarrow> ParamsEntity option \<Rightarrow> ParamsEntity option" where
  "insertOrMerge entity stored =
     (case stored of
        None \<Rightarrow> Some entity
      | Some old \<Rightarrow>
          Some \<lparr>LastProcessedIrreversibleBlockTime =
                  (case LastProcessedIrreversibleBlockTime entity of
                     None \<Rightarrow> LastProcessedIrreversibleBlockTime old
                   | Some t \<Rightarrow> Some t),
                NextActionSequence =
                  (case NextActionSequence entity of
                     None \<Rightarrow> NextActionSequence old
                   | Some n \<Rightarrow> Some n)\<rparr>)"

definition ParamsRepository_get :: "ParamsEntity option \<Rightarrow> ParamsEntity option" where
  "ParamsRepository_get table = table"

text \<open>The entity \<^verbatim>\<open>upsert\<close> builds from its argument, before it is written.\<close>

definition ParamsRepository_entity :: "params_arg \<Rightarrow> ParamsEntity" where
  "ParamsRepository_entity params =
     \<lparr>LastProcessedIrreversibleBlockTime = arg_lastProcessedIrreversibleBlockTime params,
      NextActionSequence = arg_nextActionSequence params\<rparr>"

definition ParamsRepository_upsert :: "params_arg \<Rightarrow> ParamsEntity option \<Rightarrow> ParamsEntity option" where
  "ParamsRepository_upsert params table = insertOrMerge (ParamsRepository_entity params) table"

section \<open>Collaborators whose modules are not among the sources\<close>

subsection \<open>OperationRepository\<close>

text \<open>
  \<^verbatim>\<open>ErrorCode\<close> is declared in the missing module; the service names one member.
\<close>

datatype ErrorCode = buildingShouldBeRepeated | otherErrorCode string

text \<open>
  Modelled from the spec: the Operation entity of \<^verbatim>\<open>../domain/operations\<close>, with the
  fields the spec lists (\<^verbatim>\<open>assetId, isCompleted, isFailed, isCancelled, completionTime,
  failTime, errorCode\<close>) and the block, block time and error text that the service
  records on it. The entity is stored under its operation id.
\<close>

record OperationEntity =
  Operation_AssetId :: string
  Completed :: bool
  Failed :: bool
  Cancelled :: bool
  CompletionTime :: "date option"
  BlockTime :: "date option"
  Operation_Block :: "nat option"
  FailTime :: "date option"
  Error :: "string option"
  Operation_ErrorCode :: "ErrorCode option"

definition isCompleted :: "OperationEntity \<Rightarrow> bool" where
  "isCompleted operation = Completed operation"

definition isFailed :: "OperationEntity \<Rightarrow> bool" where
  "isFailed operation = Failed operation"

text \<open>A planned action of an Operation, with the fields the service reads.\<close>

record OperationAction =
  FromAddress :: string
  ToAddress :: string
  Action_Amount :: number
  Action_AmountInBaseUnit :: number
  RowKey :: string

text \<open>The argument object of \<^verbatim>\<open>update\<close>, with the fields the service passes.\<close>

record update_arg =
  arg_completionTime :: "date option"
  arg_blockTime :: "date option"
  arg_block :: "nat option"
  arg_errorCode :: "ErrorCode option"
  arg_error :: "string option"
  arg_failTime :: "date option"

text \<open>
  The repository's data. The three read indexes are taken as they answer:
  \<^verbatim>\<open>getOperationIdByTxId\<close>, \<^verbatim>\<open>getActions\<close> and \<^verbatim>\<open>geOperationIdByExpiryTime\<close> (the
  ids of the operations whose expiry falls between the two dates, in the order the
  query returns them). The service never writes them.
\<close>

record operation_store =
  txIndex :: "string \<Rightarrow> string option"
  actionsIndex :: "string \<Rightarrow> OperationAction list"
  expiryIndex :: "date \<Rightarrow> date \<Rightarrow> string list"
  operationTable :: "string \<Rightarrow> OperationEntity option"

definition getOperationIdByTxId :: "operation_store \<Rightarrow> string \<Rightarrow> string option" where
  "getOperationIdByTxId store txId = txIndex store txId"

definition getActions :: "operation_store \<Rightarrow> string \<Rightarrow> OperationAction list" where
  "getActions store operationId = actionsIndex store operationId"

definition geOperationIdByExpiryTime :: "operation_store \<Rightarrow> date \<Rightarrow> date \<Rightarrow> string list" where
  "geOperationIdByExpiryTime store from_time to_time = expiryIndex store from_time to_time"

definition OperationRepository_get :: "operation_store \<Rightarrow> string \<Rightarrow> OperationEntity option" where
  "OperationRepository_get store operationId = operationTable store operationId"

text \<open>
  Modelled from the spec: \<^verbatim>\<open>OperationRepository.update\<close>. A write with a completion
  time is the transition to completed, "recording block and block-time"; a write with a
  fail time is the transition to failed, "with an expiry error code and timestamp".
  Fields the argument leaves out keep their values. The core "only transitions" an
  Operation that an upstream component created: with no entity under the id, nothing is
  written (the service calls \<^verbatim>\<open>update\<close> only for an entity it has just read).
\<close>

definition mergeOperation :: "update_arg \<Rightarrow> OperationEntity \<Rightarrow> OperationEntity" where
  "mergeOperation params operation =
     operation
       \<lparr>Completed := Completed operation \<or> arg_completionTime params \<noteq> None,
        Failed := Failed operation \<or> arg_failTime params \<noteq> None,
        CompletionTime :=
          (case arg_completionTime params of None \<Rightarrow> CompletionTime operation | Some t \<Rightarrow> Some t),
        BlockTime :=
          (case arg_blockTime params of None \<Rightarrow> BlockTime operation | Some t \<Rightarrow> Some t),
        Operation_Block :=
          (case arg_block params of None \<Rightarrow> Operation_Block operation | Some b \<Rightarrow> Some b),
        FailTime :=
          (case arg_failTime params of None \<Rightarrow> FailTime operation | Some t \<Rightarrow> Some t),
        Error := (case arg_error params of None \<Rightarrow> Error operation | Some e \<Rightarrow> Some e),
        Operation_ErrorCode :=
          (case arg_errorCode params of None \<Rightarrow> Operation_ErrorCode operation | Some c \<Rightarrow> Some c)\<rparr>"

definition OperationRepository_update :: "string \<Rightarrow> update_arg \<Rightarrow> operation_store
    \<Rightarrow> operation_store" where
  "OperationRepository_update operationId params store =
     (case operationTable store operationId of
        None \<Rightarrow> store
      | Some operation \<Rightarrow>
          store\<lparr>operationTable :=
                  (operationTable store)(operationId \<mapsto> mergeOperation params operation)\<rparr>)"

subsection \<open>HistoryRepository\<close>

text \<open>
  Modelled from the spec: \<^verbatim>\<open>HistoryRepository.upsert\<close> is "a pure overwrite-or-insert
  keyed by (txId, actionId)" of an entry with the ten arguments of the call.
\<close>

record HistoryEntry =
  History_fromAddress :: string
  History_toAddress :: string
  History_assetId :: string
  History_amount :: number
  History_amountInBaseUnit :: number
  History_block :: nat
  History_blockTime :: date
  History_txId :: string
  History_actionId :: string
  History_operationId :: "string option"

definition HistoryRepository_upsert :: "HistoryEntry \<Rightarrow> (string \<times> string \<Rightarrow> HistoryEntry option)
    \<Rightarrow> (string \<times> string \<Rightarrow> HistoryEntry option)" where
  "HistoryRepository_upsert entry table = table((History_txId entry, History_actionId entry) \<mapsto> entry)"

subsection \<open>Asset directory, settings and helpers of \<^verbatim>\<open>../common\<close>\<close>

text \<open>
  An asset as \<^verbatim>\<open>AssetRepository.get\<close> returns it: its id and its conversion to base
  units, both taken as given.
\<close>

record Asset =
  Asset_AssetId :: string
  toBaseUnit :: "number \<Rightarrow> number"

text \<open>
  What the service imports and does not define: the separator, \<^verbatim>\<open>isoUTC\<close>,
  \<^verbatim>\<open>isSteemAddress\<close>, and the answers of \<^verbatim>\<open>AssetRepository.get\<close> (for a symbol, or for
  \<^verbatim>\<open>undefined\<close> when the amount has no second part).
\<close>

record env =
  ADDRESS_SEPARATOR :: string
  isoUTC :: "string \<Rightarrow> date"
  isSteemAddress :: "string \<Rightarrow> bool"
  AssetRepository_get :: "string option \<Rightarrow> Asset option"

section \<open>The chain, as the steem client answers\<close>

record transfer_op =
  transfer_from :: string
  transfer_to :: string
  transfer_amount :: string
  transfer_memo :: string

text \<open>
  An entry of the account history. \<^verbatim>\<open>op\<close> is the pair of the operation's name and its
  payload; the payload of an operation that is not a transfer is never read and is left
  out.
\<close>

record chain_action =
  act_block :: nat
  act_timestamp :: string
  act_trx_id :: string
  act_op :: "string \<times> transfer_op option"

text \<open>
  A snapshot of the chain for one tick: the last irreversible block number, the hot
  wallet account's history (the action with sequence number \<open>i\<close> at index \<open>i\<close>), and
  the timestamp of each block that exists.
\<close>

record chain =
  last_irreversible_block_num :: nat
  accountHistory :: "chain_action list"
  blockTimestamp :: "nat \<Rightarrow> string option"

text \<open>
  \<^verbatim>\<open>getAccountHistoryAsync(account, from, 0)\<close>: the one entry at \<^verbatim>\<open>from\<close>, paired with
  its sequence number; past the end of the history the node answers with the latest
  entry, and with nothing for an account without history.
\<close>

definition getAccountHistoryAsync :: "chain \<Rightarrow> nat \<Rightarrow> (nat \<times> chain_action) list" where
  "getAccountHistoryAsync c from_seq =
     (if accountHistory c = [] then []
      else (let i = min from_seq (length (accountHistory c) - 1) in [(i, accountHistory c ! i)]))"

section \<open>SteemService\<close>

text \<open>
  The writes the service asks of its repositories, with their arguments. The state of
  the stores carries the journal of these writes in the order the service makes them.
  Log messages go to an external log service and are not part of the state.
\<close>

datatype write_call =
    BalanceUpsert string string string number number nat
  | HistoryUpsert HistoryEntry
  | OperationUpdate string update_arg
  | ParamsUpsert params_arg

record state =
  paramsTable :: "ParamsEntity option"
  balanceDb :: balance_db
  historyTable :: "string \<times> string \<Rightarrow> HistoryEntry option"
  operationStore :: operation_store
  journal :: "write_call list"

definition balanceRepository_upsert :: "string \<Rightarrow> string \<Rightarrow> string \<Rightarrow> number \<Rightarrow> number \<Rightarrow> nat
    \<Rightarrow> state \<Rightarrow> state" where
  "balanceRepository_upsert address assetId operationOrTxId amount amountInBaseUnit block s =
     s\<lparr>balanceDb :=
         BalanceRepository_upsert address assetId operationOrTxId amount amountInBaseUnit block
           (balanceDb s),
       journal :=
         journal s @ [BalanceUpsert address assetId operationOrTxId amount amountInBaseUnit block]\<rparr>"

definition historyRepository_upsert :: "string \<Rightarrow> string \<Rightarrow> string \<Rightarrow> number \<Rightarrow> number \<Rightarrow> nat
    \<Rightarrow> date \<Rightarrow> string \<Rightarrow> string \<Rightarrow> string option \<Rightarrow> state \<Rightarrow> state" where
  "historyRepository_upsert fromAddress toAddress assetId amount amountInBaseUnit block blockTime
       txId actionId operationId s =
     (let entry =
        \<lparr>History_fromAddress = fromAddress, History_toAddress = toAddress,
         History_assetId = assetId, History_amount = amount,
         History_amountInBaseUnit = amountInBaseUnit, History_block = block,
         History_blockTime = blockTime, History_txId = txId, History_actionId = actionId,
         History_operationId = operationId\<rparr>
      in s\<lparr>historyTable := HistoryRepository_upsert entry (historyTable s),
           journal := journal s @ [HistoryUpsert entry]\<rparr>)"

definition operationRepository_update :: "string \<Rightarrow> update_arg \<Rightarrow> state \<Rightarrow> state" where
  "operationRepository_update operationId params s =
     s\<lparr>operationStore := OperationRepository_update operationId params (operationStore s),
       journal := journal s @ [OperationUpdate operationId params]\<rparr>"

definition paramsRepository_upsert :: "params_arg \<Rightarrow> state \<Rightarrow> state" where
  "paramsRepository_upsert params s =
     s\<lparr>paramsTable := ParamsRepository_upsert params (paramsTable s),
       journal := journal s @ [ParamsUpsert params]\<rparr>"

text \<open>
  \<^verbatim>\<open>for (const bc of balanceChanges)\<close>: one balance upsert for each change, a change being
  its address, affix and affix in base units.
\<close>

definition recordBalanceChanges :: "(string \<times> number \<times> number) list \<Rightarrow> string \<Rightarrow> string \<Rightarrow> nat
    \<Rightarrow> state \<Rightarrow> state" where
  "recordBalanceChanges balanceChanges assetId operationOrTxId block s =
     foldl (\<lambda>s' (address, affix, affixInBaseUnit).
              balanceRepository_upsert address assetId operationOrTxId affix affixInBaseUnit block s')
       s balanceChanges"

text \<open>
  The body of \<^verbatim>\<open>for (const action of operationActions)\<close>: the two balance changes of a
  planned action, then its history entry.
\<close>

definition recordOperationAction :: "OperationEntity \<Rightarrow> string \<Rightarrow> nat \<Rightarrow> date \<Rightarrow> string
    \<Rightarrow> state \<Rightarrow> OperationAction \<Rightarrow> state" where
  "recordOperationAction operation operationId block blockTime txId s action =
     (let balanceChanges =
            [(FromAddress action, neg (Action_Amount action), neg (Action_AmountInBaseUnit action)),
             (ToAddress action, Action_Amount action, Action_AmountInBaseUnit action)];
          s1 = recordBalanceChanges balanceChanges (Operation_AssetId operation) operationId block s
      in historyRepository_upsert (FromAddress action) (ToAddress action)
           (Operation_AssetId operation) (Action_Amount action) (Action_AmountInBaseUnit action)
           block blockTime txId (RowKey action) (Some operationId) s1)"

text \<open>
  The branch of a transfer whose transaction id names an operation. Reading a method of
  an operation that does not exist throws; nothing has been written for the action by
  then.
\<close>

definition internalTransfer :: "date \<Rightarrow> string \<Rightarrow> nat \<Rightarrow> date \<Rightarrow> string \<Rightarrow> state
    \<Rightarrow> failure + state" where
  "internalTransfer now operationId block blockTime txId s =
     (let operationActions = getActions (operationStore s) operationId
      in case OperationRepository_get (operationStore s) operationId of
           None \<Rightarrow> Inl TypeError
         | Some operation \<Rightarrow>
             if \<not> isCompleted operation
             then Inr (operationRepository_update operationId
                         \<lparr>arg_completionTime = Some now, arg_blockTime = Some blockTime,
                          arg_block = Some block, arg_errorCode = None, arg_error = None,
                          arg_failTime = None\<rparr>
                         (foldl (recordOperationAction operation operationId block blockTime txId)
                            s operationActions))
             else Inr s)"

text \<open>
  The branch of a transfer that is not ours; \<^verbatim>\<open>operationId\<close> is the falsy answer of the
  lookup, handed on to the history entry as it is.
\<close>

definition externalTransfer :: "env \<Rightarrow> transfer_op \<Rightarrow> string option \<Rightarrow> nat \<Rightarrow> date \<Rightarrow> string
    \<Rightarrow> string \<Rightarrow> state \<Rightarrow> state" where
  "externalTransfer e transfer operationId block blockTime txId actionId s =
     (let parts = split2 (transfer_amount transfer);
          val = parseFloat (fst parts)
      in case AssetRepository_get e (snd parts) of
           Some asset \<Rightarrow>
             (let assetId = Asset_AssetId asset;
                  valueInBaseUnit = toBaseUnit asset val;
                  to_address =
                    (if transfer_memo transfer \<noteq> []
                     then transfer_to transfer @ ADDRESS_SEPARATOR e @ transfer_memo transfer
                     else transfer_to transfer)
              in if isSteemAddress e to_address
                 then
                   (let s1 = historyRepository_upsert (transfer_from transfer) to_address assetId
                               val valueInBaseUnit block blockTime txId actionId operationId s;
                        balanceChanges =
                          [(transfer_from transfer, neg val, neg valueInBaseUnit),
                           (to_address, val, valueInBaseUnit)]
                    in recordBalanceChanges balanceChanges assetId txId block s1)
                 else s)
         | None \<Rightarrow> s)"

text \<open>
  What one pass of the loop does with the action it found, before it advances the
  counter.
\<close>

definition applyAction :: "env \<Rightarrow> date \<Rightarrow> nat \<Rightarrow> chain_action \<Rightarrow> state \<Rightarrow> failure + state" where
  "applyAction e now nextActionSequence action s =
     (let transfer = (if fst (act_op action) = ''transfer'' then snd (act_op action) else None);
          block = act_block action * 10;
          blockTime = isoUTC e (act_timestamp action);
          txId = act_trx_id action;
          actionId = toString nextActionSequence
      in case transfer of
           Some payload \<Rightarrow>
             (let operationId = getOperationIdByTxId (operationStore s) txId
              in case operationId of
                   Some ident \<Rightarrow>
                     if ident \<noteq> []
                     then internalTransfer now ident block blockTime txId s
                     else Inr (externalTransfer e payload operationId block blockTime txId actionId s)
                 | None \<Rightarrow>
                     Inr (externalTransfer e payload operationId block blockTime txId actionId s))
         | None \<Rightarrow> Inr s)"

text \<open>
  The body of the loop's \<^verbatim>\<open>if\<close>: the action is applied, the counter is incremented
  and the new counter is written to the parameters.
\<close>

definition processAction :: "env \<Rightarrow> date \<Rightarrow> nat \<Rightarrow> chain_action \<Rightarrow> state \<Rightarrow> failure + state" where
  "processAction e now nextActionSequence action s =
     (case applyAction e now nextActionSequence action s of
        Inl err \<Rightarrow> Inl err
      | Inr s' \<Rightarrow>
          Inr (paramsRepository_upsert
                 \<lparr>arg_nextActionSequence = Some (nextActionSequence + 1),
                  arg_lastProcessedIrreversibleBlockTime = None\<rparr> s'))"

text \<open>
  The action the loop works on: the first entry of the answer when it carries the
  sequence number asked for.
\<close>

definition actionAt :: "chain \<Rightarrow> nat \<Rightarrow> chain_action option" where
  "actionAt c nextActionSequence =
     (case getAccountHistoryAsync c nextActionSequence of
        [] \<Rightarrow> None
      | (i, a) # _ \<Rightarrow> if i = nextActionSequence then Some a else None)"

text \<open>
  \<^verbatim>\<open>while (true)\<close>, from the counter and the stores it has reached. The result is the
  value returned, or the failure thrown, with the stores as they then are.
  \<open>globalProperties\<close> is the last irreversible block number read before the loop.
\<close>

function handleLoop :: "chain \<Rightarrow> env \<Rightarrow> date \<Rightarrow> nat \<Rightarrow> nat \<Rightarrow> state \<Rightarrow> (failure + nat) \<times> state" where
  "handleLoop c e now globalProperties nextActionSequence s =
     (case actionAt c nextActionSequence of
        Some action \<Rightarrow>
          if act_block action \<le> globalProperties
          then
            (case processAction e now nextActionSequence action s of
               Inl err \<Rightarrow> (Inl err, s)
             | Inr s' \<Rightarrow> handleLoop c e now globalProperties (nextActionSequence + 1) s')
          else (Inr globalProperties, s)
      | None \<Rightarrow> (Inr globalProperties, s))"
  by pat_completeness auto
termination
proof (relation "measure (\<lambda>(c, e, now, g, n, s). length (accountHistory c) - n)")
  show "wf (measure (\<lambda>(c, e, now, g, n, s). length (accountHistory c) - n))"
    by simp
next
  fix c :: chain and e :: env and now g n :: nat and s s' :: state and a :: chain_action
  assume "actionAt c n = Some a"
  then have "n < length (accountHistory c)"
    by (cases "accountHistory c")
       (auto simp: actionAt_def getAccountHistoryAsync_def Let_def min_def split: if_splits)
  then show "((c, e, now, g, n + 1, s'), (c, e, now, g, n, s))
             \<in> measure (\<lambda>(c, e, now, g, n, s). length (accountHistory c) - n)"
    by simp
qed

declare handleLoop.simps [simp del]

definition handleActions :: "chain \<Rightarrow> env \<Rightarrow> date \<Rightarrow> state \<Rightarrow> (failure + nat) \<times> state" where
  "handleActions c e now s =
     (let params = ParamsRepository_get (paramsTable s);
          globalProperties = last_irreversible_block_num c;
          nextActionSequence =
            (case params of
               None \<Rightarrow> 0
             | Some p \<Rightarrow> (case NextActionSequence p of None \<Rightarrow> 0 | Some n \<Rightarrow> n))
      in handleLoop c e now globalProperties nextActionSequence s)"

text \<open>
  The body of the sweep's \<^verbatim>\<open>for\<close> loop, for one presumably expired operation id.
  The entity read under an id carries that id as its \<^verbatim>\<open>OperationId\<close>, which is the id
  the update is addressed to.
\<close>

definition expireOperation :: "date \<Rightarrow> state \<Rightarrow> string \<Rightarrow> state" where
  "expireOperation now s operationId =
     (case OperationRepository_get (operationStore s) operationId of
        Some operation \<Rightarrow>
          if \<not> isCompleted operation \<and> \<not> isFailed operation
          then operationRepository_update operationId
                 \<lparr>arg_completionTime = None, arg_blockTime = None, arg_block = None,
                  arg_errorCode = Some buildingShouldBeRepeated,
                  arg_error = Some ''Transaction expired'', arg_failTime = Some now\<rparr> s
          else s
      | None \<Rightarrow> s)"

text \<open>
  The lower bound of the sweep: \<^verbatim>\<open>new Date(0)\<close> when the checkpoint holds no time (a
  \<^verbatim>\<open>Date\<close> is never falsy).
\<close>

definition lastProcessedTime :: "ParamsEntity option \<Rightarrow> date" where
  "lastProcessedTime params =
     (case params of
        None \<Rightarrow> 0
      | Some p \<Rightarrow> (case LastProcessedIrreversibleBlockTime p of None \<Rightarrow> 0 | Some t \<Rightarrow> t))"

definition handleExpired :: "chain \<Rightarrow> env \<Rightarrow> date \<Rightarrow> nat \<Rightarrow> state \<Rightarrow> (failure + unit) \<times> state" where
  "handleExpired c e now lastActionIrreversibleBlockNumber s =
     (let params = ParamsRepository_get (paramsTable s);
          lastProcessedIrreversibleBlockTime = lastProcessedTime params
      in case blockTimestamp c lastActionIrreversibleBlockNumber of
           None \<Rightarrow> (Inl TypeError, s)
         | Some timestamp \<Rightarrow>
             (let lastActionIrreversibleBlockTime = isoUTC e timestamp;
                  presumablyExpired =
                    geOperationIdByExpiryTime (operationStore s)
                      lastProcessedIrreversibleBlockTime lastActionIrreversibleBlockTime;
                  s1 = foldl (expireOperation now) s presumablyExpired
              in (Inr (),
                  paramsRepository_upsert
                    \<lparr>arg_nextActionSequence = None,
                     arg_lastProcessedIrreversibleBlockTime = Some lastActionIrreversibleBlockTime\<rparr>
                    s1)))"

text \<open>
  One tick of the job in \<^verbatim>\<open>server.ts\<close>: the sweep runs with the number the intake
  returned; a failure of either is caught and ends the tick.
\<close>

definition tick :: "chain \<Rightarrow> env \<Rightarrow> date \<Rightarrow> state \<Rightarrow> (failure + unit) \<times> state" where
  "tick c e now s =
     (case handleActions c e now s of
        (Inr lastActionIrreversibleBlockNumber, s1) \<Rightarrow>
          handleExpired c e now lastActionIrreversibleBlockNumber s1
      | (Inl err, s1) \<Rightarrow> (Inl err, s1))"

section \<open>Vocabulary of the properties\<close>

text \<open>The loop's guard: an action exists at the sequence number and is irreversible.\<close>

definition irreversibleAt :: "chain \<Rightarrow> nat \<Rightarrow> nat \<Rightarrow> bool" where
  "irreversibleAt c globalProperties n =
     (case actionAt c n of Some action \<Rightarrow> act_block action \<le> globalProperties | None \<Rightarrow> False)"

text \<open>The two fields of the stored checkpoint, absent when the row or the field is.\<close>

definition checkpointSequence :: "state \<Rightarrow> nat option" where
  "checkpointSequence s =
     (case paramsTable s of None \<Rightarrow> None | Some p \<Rightarrow> NextActionSequence p)"

definition checkpointTime :: "state \<Rightarrow> date option" where
  "checkpointTime s =
     (case paramsTable s of None \<Rightarrow> None | Some p \<Rightarrow> LastProcessedIrreversibleBlockTime p)"

text \<open>
  A transfer is external when the lookup of its transaction id answers with nothing or
  with an empty id. The address that is validated joins the destination and the memo
  when there is a memo.
\<close>

definition isExternal :: "state \<Rightarrow> chain_action \<Rightarrow> bool" where
  "isExternal s action =
     (case getOperationIdByTxId (operationStore s) (act_trx_id action) of
        None \<Rightarrow> True
      | Some ident \<Rightarrow> ident = [])"

definition effectiveDestination :: "env \<Rightarrow> transfer_op \<Rightarrow> string" where
  "effectiveDestination e transfer =
     (if transfer_memo transfer \<noteq> []
      then transfer_to transfer @ ADDRESS_SEPARATOR e @ transfer_memo transfer
      else transfer_to transfer)"

text \<open>The sequence number a tick starts at.\<close>

definition startSequence :: "state \<Rightarrow> nat" where
  "startSequence s = (case checkpointSequence s of None \<Rightarrow> 0 | Some n \<Rightarrow> n)"

text \<open>The argument of the checkpoint write that follows the action at a sequence number.\<close>

definition sequenceCheckpoint :: "nat \<Rightarrow> params_arg" where
  "sequenceCheckpoint nextActionSequence =
     \<lparr>arg_nextActionSequence = Some (nextActionSequence + 1),
      arg_lastProcessedIrreversibleBlockTime = None\<rparr>"

text \<open>
  The three writes of one planned action on the internal path: the debit of the sender,
  the credit of the recipient, and the history entry.
\<close>

definition plannedWrites :: "OperationEntity \<Rightarrow> string \<Rightarrow> nat \<Rightarrow> date \<Rightarrow> string
    \<Rightarrow> OperationAction \<Rightarrow> write_call list" where
  "plannedWrites operation operationId block blockTime txId action =
     [BalanceUpsert (FromAddress action) (Operation_AssetId operation) operationId
        (neg (Action_Amount action)) (neg (Action_AmountInBaseUnit action)) block,
      BalanceUpsert (ToAddress action) (Operation_AssetId operation) operationId
        (Action_Amount action) (Action_AmountInBaseUnit action) block,
      HistoryUpsert
        \<lparr>History_fromAddress = FromAddress action, History_toAddress = ToAddress action,
         History_assetId = Operation_AssetId operation, History_amount = Action_Amount action,
         History_amountInBaseUnit = Action_AmountInBaseUnit action, History_block = block,
         History_blockTime = blockTime, History_txId = txId, History_actionId = RowKey action,
         History_operationId = Some operationId\<rparr>]"

text \<open>
  The balance changes of the planned actions in the order they are written: for each
  planned action the debit of its sender, then the credit of its recipient, each with
  its address and its two amounts.
\<close>

definition plannedChanges :: "OperationAction list \<Rightarrow> (string \<times> number \<times> number) list" where
  "plannedChanges actions =
     concat (map (\<lambda>action.
                    [(FromAddress action, neg (Action_Amount action),
                      neg (Action_AmountInBaseUnit action)),
                     (ToAddress action, Action_Amount action, Action_AmountInBaseUnit action)])
               actions)"

text \<open>
  The document a balance upsert leaves under its id: the document that was there, or an
  empty one, with the seven fields of the upsert set.
\<close>

definition upsertedDocument :: "string \<Rightarrow> string \<Rightarrow> string \<Rightarrow> number \<Rightarrow> number \<Rightarrow> nat \<Rightarrow> bool
    \<Rightarrow> balance_doc option \<Rightarrow> balance_doc" where
  "upsertedDocument address assetId operationOrTxId amount amountInBaseUnit block observable old =
     (case old of None \<Rightarrow> empty_doc | Some d \<Rightarrow> d)
       \<lparr>Address := Some address, AssetId := Some assetId,
        OperationOrTxId := Some operationOrTxId, Amount := Some amount,
        AmountInBaseUnit := Some amountInBaseUnit, Block := Some block,
        IsObservable := Some observable\<rparr>"

text \<open>One balance change, written for an asset under an operation or transaction id.\<close>

definition applyChange :: "string \<Rightarrow> string \<Rightarrow> nat \<Rightarrow> balance_db \<Rightarrow> string \<times> number \<times> number
    \<Rightarrow> balance_db" where
  "applyChange assetId operationOrTxId block db change =
     (case change of
        (address, affix, affixInBaseUnit) \<Rightarrow>
          BalanceRepository_upsert address assetId operationOrTxId affix affixInBaseUnit block db)"

text \<open>The history entry of a planned action.\<close>

definition plannedHistory :: "OperationEntity \<Rightarrow> string \<Rightarrow> nat \<Rightarrow> date \<Rightarrow> string
    \<Rightarrow> OperationAction \<Rightarrow> HistoryEntry" where
  "plannedHistory operation operationId block blockTime txId action =
     \<lparr>History_fromAddress = FromAddress action, History_toAddress = ToAddress action,
      History_assetId = Operation_AssetId operation, History_amount = Action_Amount action,
      History_amountInBaseUnit = Action_AmountInBaseUnit action, History_block = block,
      History_blockTime = blockTime, History_txId = txId, History_actionId = RowKey action,
      History_operationId = Some operationId\<rparr>"

text \<open>The write that completes an operation, and the write that fails an expired one.\<close>

definition completion :: "date \<Rightarrow> date \<Rightarrow> nat \<Rightarrow> update_arg" where
  "completion now blockTime block =
     \<lparr>arg_completionTime = Some now, arg_blockTime = Some blockTime, arg_block = Some block,
      arg_errorCode = None, arg_error = None, arg_failTime = None\<rparr>"

definition expiry :: "date \<Rightarrow> update_arg" where
  "expiry now =
     \<lparr>arg_completionTime = None, arg_blockTime = None, arg_block = None,
      arg_errorCode = Some buildingShouldBeRepeated, arg_error = Some ''Transaction expired'',
      arg_failTime = Some now\<rparr>"

text \<open>The argument of the checkpoint write that ends a sweep.\<close>

definition timeCheckpoint :: "date \<Rightarrow> params_arg" where
  "timeCheckpoint lastActionIrreversibleBlockTime =
     \<lparr>arg_nextActionSequence = None,
      arg_lastProcessedIrreversibleBlockTime = Some lastActionIrreversibleBlockTime\<rparr>"

text \<open>
  The operation table after a sweep over a list of ids: an operation of the list that
  is neither completed nor failed has received the expiry write, every other entity is
  as it was.
\<close>

definition swept :: "date \<Rightarrow> string list \<Rightarrow> (string \<Rightarrow> OperationEntity option)
    \<Rightarrow> string \<Rightarrow> OperationEntity option" where
  "swept now ids table operationId =
     (case table operationId of
        None \<Rightarrow> None
      | Some operation \<Rightarrow>
          if operationId \<in> set ids \<and> \<not> isCompleted operation \<and> \<not> isFailed operation
          then Some (mergeOperation (expiry now) operation)
          else Some operation)"

text \<open>The block a write records, for the writes that record one.\<close>

fun writtenBlock :: "write_call \<Rightarrow> nat option" where
  "writtenBlock (BalanceUpsert address assetId operationOrTxId amount amountInBaseUnit block) =
     Some block"
| "writtenBlock (HistoryUpsert entry) = Some (History_block entry)"
| "writtenBlock (OperationUpdate operationId params) = None"
| "writtenBlock (ParamsUpsert params) = None"

fun isLedgerWrite :: "write_call \<Rightarrow> bool" where
  "isLedgerWrite (BalanceUpsert address assetId operationOrTxId amount amountInBaseUnit block) = True"
| "isLedgerWrite (HistoryUpsert entry) = True"
| "isLedgerWrite (OperationUpdate operationId params) = False"
| "isLedgerWrite (ParamsUpsert params) = False"

text \<open>
  Every balance document and history entry of the later stores either was there before
  or records the given block.
\<close>

definition stamped :: "nat \<Rightarrow> state \<Rightarrow> state \<Rightarrow> bool" where
  "stamped block s s' =
     ((\<forall>(k, d) \<in> set (balanceCollection (balanceDb s')).
          (k, d) \<in> set (balanceCollection (balanceDb s)) \<or> Block d = Some block)
      \<and> (\<forall>k h. historyTable s' k = Some h \<longrightarrow>
             historyTable s k = Some h \<or> History_block h = block))"

text \<open>
  A reader of the paginated query: it asks for pages of one size, each time with the
  token of the page before, until a page comes without a token. The fuel bounds the
  number of requests; \<open>None\<close> is a reader that has not finished within it, or a rejected
  request.
\<close>

fun readPages :: "nat \<Rightarrow> balance_db \<Rightarrow> int \<Rightarrow> string option \<Rightarrow> balance_entity list list option" where
  "readPages 0 db pageSize token = None"
| "readPages (Suc fuel) db pageSize token =
     (case BalanceRepository_getPage db pageSize token of
        Inl err \<Rightarrow> None
      | Inr page \<Rightarrow>
          (case continuation page of
             None \<Rightarrow> Some [items page]
           | Some next_token \<Rightarrow>
               map_option (\<lambda>pages. items page # pages)
                 (readPages fuel db pageSize (Some next_token))))"

declare readPages.simps [simp del]

text \<open>The offset a token stands for: \<^verbatim>\<open>parseInt(continuation) || 0\<close>.\<close>

definition skipOf :: "string option \<Rightarrow> int" where
  "skipOf token = (case parseInt token of None \<Rightarrow> 0 | Some n \<Rightarrow> n)"

section \<open>Example data\<close>

text \<open>Conversion to base units by a factor.\<close>

fun scale :: "rat \<Rightarrow> number \<Rightarrow> number" where
  "scale factor (Num r) = Num (r * factor)"
| "scale factor NaN = NaN"

definition steemAsset :: Asset where
  "steemAsset = \<lparr>Asset_AssetId = ''1'', toBaseUnit = scale 1000\<rparr>"

text \<open>
  An environment for the examples: timestamps are written as milliseconds, an address
  is valid when it is not empty and has no space, and the directory knows STEEM.
\<close>

definition exampleEnv :: env where
  "exampleEnv =
     \<lparr>ADDRESS_SEPARATOR = ''$'',
      isoUTC = digitsValue,
      isSteemAddress = (\<lambda>a. a \<noteq> [] \<and> CHR '' '' \<notin> set a),
      AssetRepository_get = (\<lambda>symbol. if symbol = Some ''STEEM'' then Some steemAsset else None)\<rparr>"

definition pendingOperation :: OperationEntity where
  "pendingOperation =
     \<lparr>Operation_AssetId = ''1'', Completed = False, Failed = False, Cancelled = False,
      CompletionTime = None, BlockTime = None, Operation_Block = None, FailTime = None,
      Error = None, Operation_ErrorCode = None\<rparr>"

definition completedOperation :: OperationEntity where
  "completedOperation = pendingOperation\<lparr>Completed := True, CompletionTime := Some 10\<rparr>"

definition plannedAction :: OperationAction where
  "plannedAction =
     \<lparr>FromAddress = ''hot'', ToAddress = ''C'', Action_Amount = Num 2,
      Action_AmountInBaseUnit = Num 2000, RowKey = ''0''\<rparr>"

text \<open>
  Three operations: \<open>op1\<close> is pending and was broadcast as transaction \<open>T2\<close>, \<open>op2\<close> is
  pending and never seen on the chain, \<open>op3\<close> is completed and was broadcast as \<open>T3\<close>.
  \<open>op1\<close> expires at 4000 and \<open>op2\<close> at 4500.
\<close>

definition exampleOperations :: operation_store where
  "exampleOperations =
     \<lparr>txIndex = (\<lambda>txId. if txId = ''T2'' then Some ''op1''
                         else if txId = ''T3'' then Some ''op3'' else None),
      actionsIndex = (\<lambda>operationId. if operationId = ''op1'' \<or> operationId = ''op3''
                                     then [plannedAction] else []),
      expiryIndex = (\<lambda>from_time to_time.
                       map snd (filter (\<lambda>(t, i). from_time < t \<and> t \<le> to_time)
                                  [(4000 :: nat, ''op1''), (4500, ''op2'')])),
      operationTable = (\<lambda>operationId.
                          if operationId = ''op1'' \<or> operationId = ''op2'' then Some pendingOperation
                          else if operationId = ''op3'' then Some completedOperation
                          else None)\<rparr>"

definition exampleState :: state where
  "exampleState =
     \<lparr>paramsTable = None,
      balanceDb = \<lparr>addressCollection = {''B''}, balanceCollection = []\<rparr>,
      historyTable = (\<lambda>k. None),
      operationStore = exampleOperations,
      journal = []\<rparr>"

definition voteAction :: chain_action where
  "voteAction =
     \<lparr>act_block = 90, act_timestamp = ''1000'', act_trx_id = ''T0'', act_op = (''vote'', None)\<rparr>"

definition depositAction :: chain_action where
  "depositAction =
     \<lparr>act_block = 91, act_timestamp = ''2000'', act_trx_id = ''T1'',
      act_op = (''transfer'',
                Some \<lparr>transfer_from = ''A'', transfer_to = ''B'',
                      transfer_amount = ''10.5 STEEM'', transfer_memo = []\<rparr>)\<rparr>"

definition withdrawalAction :: chain_action where
  "withdrawalAction =
     \<lparr>act_block = 92, act_timestamp = ''3000'', act_trx_id = ''T2'',
      act_op = (''transfer'',
                Some \<lparr>transfer_from = ''hot'', transfer_to = ''C'',
                      transfer_amount = ''2.000 STEEM'', transfer_memo = []\<rparr>)\<rparr>"

definition replayedAction :: chain_action where
  "replayedAction = withdrawalAction\<lparr>act_trx_id := ''T3''\<rparr>"

definition unknownAssetAction :: chain_action where
  "unknownAssetAction =
     \<lparr>act_block = 93, act_timestamp = ''3500'', act_trx_id = ''T4'',
      act_op = (''transfer'',
                Some \<lparr>transfer_from = ''A'', transfer_to = ''B'',
                      transfer_amount = ''1.000 SBD'', transfer_memo = []\<rparr>)\<rparr>"

definition badAddressAction :: chain_action where
  "badAddressAction =
     \<lparr>act_block = 94, act_timestamp = ''3600'', act_trx_id = ''T5'',
      act_op = (''transfer'',
                Some \<lparr>transfer_from = ''A'', transfer_to = ''B'',
                      transfer_amount = ''1.000 STEEM'', transfer_memo = ''a b''\<rparr>)\<rparr>"

definition pendingAction :: chain_action where
  "pendingAction = depositAction\<lparr>act_block := 101, act_trx_id := ''T6''\<rparr>"

definition exampleChain :: chain where
  "exampleChain =
     \<lparr>last_irreversible_block_num = 100,
      accountHistory = [voteAction, depositAction, withdrawalAction, pendingAction],
      blockTimestamp = (\<lambda>n. if n = 100 then Some ''5000'' else None)\<rparr>"

text \<open>The stores after the withdrawal has been applied once, at time 50.\<close>

definition withdrawnState :: state where
  "withdrawnState =
     (case applyAction exampleEnv 50 2 withdrawalAction exampleState of
        Inr s \<Rightarrow> s
      | Inl err \<Rightarrow> exampleState)"

text \<open>
  The stores where \<open>op1\<close> has failed by expiry and is not completed, and the stores after
  its transaction \<open>T2\<close> has then been observed.
\<close>

definition failedOperation :: OperationEntity where
  "failedOperation =
     pendingOperation\<lparr>Failed := True, FailTime := Some 10, Error := Some ''Transaction expired'',
                      Operation_ErrorCode := Some buildingShouldBeRepeated\<rparr>"

definition failedState :: state where
  "failedState =
     exampleState
       \<lparr>operationStore :=
          exampleOperations
            \<lparr>operationTable := (operationTable exampleOperations)(''op1'' \<mapsto> failedOperation)\<rparr>\<rparr>"

definition reappliedState :: state where
  "reappliedState =
     (case applyAction exampleEnv 50 2 withdrawalAction failedState of
        Inr s \<Rightarrow> s
      | Inl err \<Rightarrow> failedState)"





text \<open>A balance store with two observable groups and one that is not observable.\<close>

definition exampleBalances :: balance_db where
  "exampleBalances =
     BalanceRepository_upsert ''C'' ''1'' ''T9'' (Num 7) (Num 7000) 30
       (BalanceRepository_upsert ''B'' ''1'' ''T8'' (Num 1) (Num 1000) 20
          (BalanceRepository_upsert ''A'' ''1'' ''T8'' (Num (- 1)) (Num (- 1000)) 20
             (BalanceRepository_upsert ''A'' ''1'' ''T7'' (Num 5) (Num 5000) 10
                \<lparr>addressCollection = {''A'', ''B''}, balanceCollection = []\<rparr>)))"

section \<open>The balance upsert is idempotent\<close>

lemma updateOne_idem:
  "(\<And>d. f (f d) = f d) \<Longrightarrow> updateOne i f (updateOne i f docs) = updateOne i f docs"
  by (induction docs) auto

lemmas balance_eval =
  exampleBalances_def BalanceRepository_upsert_def BalanceRepository_get_def balanceId_def
  BalanceRepository_isObservable_def groupStage_def groupKey_def sumField_def maxField_def
  empty_doc_def observableGroups_def

text \<open>
  C4. On every balance store, whatever calls produced it, a second
  \<^verbatim>\<open>BalanceRepository.upsert\<close> with the same six arguments leaves the store as the first
  left it: the document under the composite id is overwritten and the collection does
  not grow, so the aggregate that \<^verbatim>\<open>get(address, assetId)\<close> returns for any address and
  asset is the same after the second call as after the first.
\<close>

theorem upsert_idempotent:
  "BalanceRepository_upsert a s t amt amtB blk (BalanceRepository_upsert a s t amt amtB blk db)
     = BalanceRepository_upsert a s t amt amtB blk db
   \<and> BalanceRepository_get
        (BalanceRepository_upsert a s t amt amtB blk
           (BalanceRepository_upsert a s t amt amtB blk db)) a' s'
     = BalanceRepository_get (BalanceRepository_upsert a s t amt amtB blk db) a' s'
   \<and> length (balanceCollection
        (BalanceRepository_upsert a s t amt amtB blk
           (BalanceRepository_upsert a s t amt amtB blk db)))
     = length (balanceCollection (BalanceRepository_upsert a s t amt amtB blk db))"
proof -
  have "BalanceRepository_upsert a s t amt amtB blk (BalanceRepository_upsert a s t amt amtB blk db)
     = BalanceRepository_upsert a s t amt amtB blk db"
    by (simp add: BalanceRepository_upsert_def BalanceRepository_isObservable_def Let_def
          updateOne_idem)
  then show ?thesis by simp
qed

theorem upsert_idempotent_witness:
  "BalanceRepository_get
     (BalanceRepository_upsert ''A'' ''1'' ''T8'' (Num (- 1)) (Num (- 1000)) 20
        (BalanceRepository_upsert ''A'' ''1'' ''T8'' (Num (- 1)) (Num (- 1000)) 20 exampleBalances))
     ''A'' ''1''
   = Some \<lparr>groupId = (Some ''A'', Some ''1''), sumAmount = Num 4, sumAmountInBaseUnit = Num 4000,
            maxBlock = Some 20\<rparr>
   \<and> length (balanceCollection
        (BalanceRepository_upsert ''A'' ''1'' ''T8'' (Num (- 1)) (Num (- 1000)) 20
           (BalanceRepository_upsert ''A'' ''1'' ''T8'' (Num (- 1)) (Num (- 1000)) 20
              exampleBalances)))
     = 4"
proof -
  have once: "BalanceRepository_get
      (BalanceRepository_upsert ''A'' ''1'' ''T8'' (Num (- 1)) (Num (- 1000)) 20 exampleBalances)
      ''A'' ''1''
    = Some \<lparr>groupId = (Some ''A'', Some ''1''), sumAmount = Num 4, sumAmountInBaseUnit = Num 4000,
             maxBlock = Some 20\<rparr>"
    by (simp add: balance_eval)
  have len: "length (balanceCollection
      (BalanceRepository_upsert ''A'' ''1'' ''T8'' (Num (- 1)) (Num (- 1000)) 20 exampleBalances)) = 4"
    by (simp add: balance_eval)
  show ?thesis
    using upsert_idempotent [of "''A''" "''1''" "''T8''" "Num (- 1)" "Num (- 1000)" 20
        exampleBalances "''A''" "''1''"] once len
    by simp
qed

section \<open>What the repository calls of the service change\<close>

lemma balanceRepository_upsert_fields:
  "journal (balanceRepository_upsert a i t v w b s) = journal s @ [BalanceUpsert a i t v w b]"
  "paramsTable (balanceRepository_upsert a i t v w b s) = paramsTable s"
  "historyTable (balanceRepository_upsert a i t v w b s) = historyTable s"
  "operationStore (balanceRepository_upsert a i t v w b s) = operationStore s"
  "balanceDb (balanceRepository_upsert a i t v w b s) = BalanceRepository_upsert a i t v w b (balanceDb s)"
  by (simp_all add: balanceRepository_upsert_def)

lemma historyRepository_upsert_fields:
  "journal (historyRepository_upsert f t i v w b bt tx ai oi s) =
     journal s @ [HistoryUpsert
        \<lparr>History_fromAddress = f, History_toAddress = t, History_assetId = i, History_amount = v,
         History_amountInBaseUnit = w, History_block = b, History_blockTime = bt, History_txId = tx,
         History_actionId = ai, History_operationId = oi\<rparr>]"
  "paramsTable (historyRepository_upsert f t i v w b bt tx ai oi s) = paramsTable s"
  "balanceDb (historyRepository_upsert f t i v w b bt tx ai oi s) = balanceDb s"
  "operationStore (historyRepository_upsert f t i v w b bt tx ai oi s) = operationStore s"
  "historyTable (historyRepository_upsert f t i v w b bt tx ai oi s) =
     (historyTable s)((tx, ai) \<mapsto>
        \<lparr>History_fromAddress = f, History_toAddress = t, History_assetId = i, History_amount = v,
         History_amountInBaseUnit = w, History_block = b, History_blockTime = bt, History_txId = tx,
         History_actionId = ai, History_operationId = oi\<rparr>)"
  by (simp_all add: historyRepository_upsert_def HistoryRepository_upsert_def Let_def)

lemma operationRepository_update_fields:
  "journal (operationRepository_update i p s) = journal s @ [OperationUpdate i p]"
  "paramsTable (operationRepository_update i p s) = paramsTable s"
  "balanceDb (operationRepository_update i p s) = balanceDb s"
  "historyTable (operationRepository_update i p s) = historyTable s"
  "operationStore (operationRepository_update i p s) = OperationRepository_update i p (operationStore s)"
  by (simp_all add: operationRepository_update_def)

lemma paramsRepository_upsert_fields:
  "journal (paramsRepository_upsert p s) = journal s @ [ParamsUpsert p]"
  "paramsTable (paramsRepository_upsert p s) = ParamsRepository_upsert p (paramsTable s)"
  "balanceDb (paramsRepository_upsert p s) = balanceDb s"
  "historyTable (paramsRepository_upsert p s) = historyTable s"
  "operationStore (paramsRepository_upsert p s) = operationStore s"
  by (simp_all add: paramsRepository_upsert_def)

lemma recordBalanceChanges_pair:
  "recordBalanceChanges [(a1, v1, w1), (a2, v2, w2)] i t b s =
     balanceRepository_upsert a2 i t v2 w2 b (balanceRepository_upsert a1 i t v1 w1 b s)"
  by (simp add: recordBalanceChanges_def)

lemma recordOperationAction_fields:
  "journal (recordOperationAction operation oid b bt tx s pa) =
     journal s @ plannedWrites operation oid b bt tx pa"
  "paramsTable (recordOperationAction operation oid b bt tx s pa) = paramsTable s"
  "operationStore (recordOperationAction operation oid b bt tx s pa) = operationStore s"
  by (simp_all add: recordOperationAction_def Let_def recordBalanceChanges_pair plannedWrites_def
        balanceRepository_upsert_fields historyRepository_upsert_fields)

lemma foldl_recordOperationAction_fields:
  "journal (foldl (recordOperationAction operation oid b bt tx) s pas) =
     journal s @ concat (map (plannedWrites operation oid b bt tx) pas)
   \<and> paramsTable (foldl (recordOperationAction operation oid b bt tx) s pas) = paramsTable s
   \<and> operationStore (foldl (recordOperationAction operation oid b bt tx) s pas) = operationStore s"
  by (induction pas arbitrary: s) (simp_all add: recordOperationAction_fields)

section \<open>Transfers of our own operations\<close>

text \<open>
  An action that has been applied on the internal path leaves its operation completed,
  so applying it to the resulting stores writes nothing.
\<close>

lemma internal_reapply:
  assumes op: "act_op a = (''transfer'', Some payload)"
    and ident: "getOperationIdByTxId (operationStore s0) (act_trx_id a) = Some operationId"
      "operationId \<noteq> []"
    and first: "applyAction e now0 n0 a s0 = Inr s1"
  shows "applyAction e now n a s1 = Inr s1"
proof -
  let ?b = "act_block a * 10" and ?bt = "isoUTC e (act_timestamp a)" and ?tx = "act_trx_id a"
  have unfold: "applyAction e t k a s = internalTransfer t operationId ?b ?bt ?tx s"
    if "getOperationIdByTxId (operationStore s) ?tx = Some operationId" for t k s
    using that op ident(2) by (simp add: applyAction_def Let_def)
  from first have it: "internalTransfer now0 operationId ?b ?bt ?tx s0 = Inr s1"
    by (simp add: unfold [OF ident(1)])
  then obtain operation0
    where get0: "OperationRepository_get (operationStore s0) operationId = Some operation0"
    by (cases "OperationRepository_get (operationStore s0) operationId")
       (simp_all add: internalTransfer_def Let_def)
  show ?thesis
  proof (cases "isCompleted operation0")
    case True
    with it get0 have "s1 = s0" by (simp add: internalTransfer_def Let_def)
    moreover from True get0 have "internalTransfer now operationId ?b ?bt ?tx s0 = Inr s0"
      by (simp add: internalTransfer_def Let_def)
    ultimately show ?thesis by (simp add: unfold [OF ident(1)])
  next
    case False
    let ?s = "foldl (recordOperationAction operation0 operationId ?b ?bt ?tx) s0
                (getActions (operationStore s0) operationId)"
    from it get0 False
    have s1: "s1 = operationRepository_update operationId (completion now0 ?bt ?b) ?s"
      by (simp add: internalTransfer_def Let_def completion_def)
    have store: "operationStore s1
        = OperationRepository_update operationId (completion now0 ?bt ?b) (operationStore s0)"
      by (simp add: s1 operationRepository_update_fields foldl_recordOperationAction_fields)
    have same: "getOperationIdByTxId (operationStore s1) ?tx = Some operationId"
      using ident(1) get0
      by (simp add: store getOperationIdByTxId_def OperationRepository_update_def
            OperationRepository_get_def)
    have get1: "OperationRepository_get (operationStore s1) operationId
        = Some (mergeOperation (completion now0 ?bt ?b) operation0)"
      using get0
      by (simp add: store OperationRepository_update_def OperationRepository_get_def)
    have "isCompleted (mergeOperation (completion now0 ?bt ?b) operation0)"
      by (simp add: isCompleted_def mergeOperation_def completion_def)
    with get1 have "internalTransfer now operationId ?b ?bt ?tx s1 = Inr s1"
      by (simp add: internalTransfer_def Let_def)
    then show ?thesis by (simp add: unfold [OF same])
  qed
qed


text \<open>
  C2, as the code has it. When a transfer's transaction id names an operation that is
  already completed, applying the action writes nothing: no balance entry, no history
  entry, no change of the operation, no journal entry. The whole loop body then only
  writes the checkpoint, which advances to the next sequence number. And an operation
  that was applied is not applied again when its transaction is observed again: once the
  action has been applied, from whatever stores, applying it to the stores that resulted
  writes nothing. The guard is \<^verbatim>\<open>!operation.isCompleted()\<close>: it is completion, not
  failure, that keeps an operation from being applied.
\<close>

theorem completed_replay:
  assumes "act_op a = (''transfer'', Some payload)"
    and "getOperationIdByTxId (operationStore s) (act_trx_id a) = Some operationId"
    and "operationId \<noteq> []"
    and "OperationRepository_get (operationStore s) operationId = Some operation"
    and "isCompleted operation"
  shows "applyAction e now n a s = Inr s
    \<and> processAction e now n a s = Inr (paramsRepository_upsert (sequenceCheckpoint n) s)
    \<and> balanceDb (paramsRepository_upsert (sequenceCheckpoint n) s) = balanceDb s
    \<and> historyTable (paramsRepository_upsert (sequenceCheckpoint n) s) = historyTable s
    \<and> operationStore (paramsRepository_upsert (sequenceCheckpoint n) s) = operationStore s
    \<and> journal (paramsRepository_upsert (sequenceCheckpoint n) s)
        = journal s @ [ParamsUpsert (sequenceCheckpoint n)]
    \<and> checkpointSequence (paramsRepository_upsert (sequenceCheckpoint n) s) = Some (n + 1)
    \<and> (\<forall>s0 now0 n0 s1.
          getOperationIdByTxId (operationStore s0) (act_trx_id a) = Some operationId
          \<and> applyAction e now0 n0 a s0 = Inr s1 \<longrightarrow>
          applyAction e now n a s1 = Inr s1)"
proof -
  have again: "\<forall>s0 now0 n0 s1.
          getOperationIdByTxId (operationStore s0) (act_trx_id a) = Some operationId
          \<and> applyAction e now0 n0 a s0 = Inr s1 \<longrightarrow>
          applyAction e now n a s1 = Inr s1"
    using internal_reapply [OF assms(1) _ assms(3)] by blast
  have app: "applyAction e now n a s = Inr s"
    using assms by (simp add: applyAction_def internalTransfer_def Let_def)
  then have "processAction e now n a s = Inr (paramsRepository_upsert (sequenceCheckpoint n) s)"
    by (simp add: processAction_def sequenceCheckpoint_def)
  moreover have "checkpointSequence (paramsRepository_upsert (sequenceCheckpoint n) s) = Some (n + 1)"
    by (simp add: checkpointSequence_def paramsRepository_upsert_fields ParamsRepository_upsert_def
          insertOrMerge_def ParamsRepository_entity_def sequenceCheckpoint_def split: option.splits)
  ultimately show ?thesis
    using app again by (simp add: paramsRepository_upsert_fields)
qed

subsection \<open>The stores after the planned actions\<close>

text \<open>
  What the balance collection holds after a sequence of upserts under one asset and one
  operation id: the document of an address is the one its last upsert wrote.
\<close>

lemma map_of_updateOne:
  "map_of (updateOne i f docs) j =
     (if j = i then Some (f (case map_of docs i of None \<Rightarrow> empty_doc | Some d \<Rightarrow> d))
      else map_of docs j)"
  by (induction docs) auto

lemma balanceId_inject: "(balanceId x a i = balanceId y a i) = (x = y)"
  by (simp add: balanceId_def)

lemma upsert_lookup:
  "map_of (balanceCollection (BalanceRepository_upsert x a i v w b db)) j =
     (if j = balanceId x a i
      then Some (upsertedDocument x a i v w b (BalanceRepository_isObservable db x)
                   (map_of (balanceCollection db) j))
      else map_of (balanceCollection db) j)"
  by (simp add: BalanceRepository_upsert_def Let_def map_of_updateOne upsertedDocument_def
        split: option.splits)

lemma upsert_addresses:
  "addressCollection (BalanceRepository_upsert x a i v w b db) = addressCollection db"
  by (simp add: BalanceRepository_upsert_def Let_def)

lemma upsertedDocument_again:
  "upsertedDocument x a i v w b obs (Some (upsertedDocument x a i v' w' b' obs' old))
     = upsertedDocument x a i v w b obs old"
  by (simp add: upsertedDocument_def)

lemma applyChange_triple:
  "applyChange a i b db (y, v, w) = BalanceRepository_upsert y a i v w b db"
  by (simp add: applyChange_def)

lemma changes_addresses:
  "addressCollection (foldl (applyChange a i b) db cs) = addressCollection db"
proof (induction cs rule: rev_induct)
  case Nil
  show ?case by simp
next
  case (snoc c cs)
  obtain y v w where "c = (y, v, w)" by (cases c)
  with snoc show ?case by (simp add: applyChange_triple upsert_addresses)
qed

lemma changes_lookup:
  "map_of (balanceCollection (foldl (applyChange a i b) db cs)) (balanceId x a i) =
     (case map_of (rev cs) x of
        None \<Rightarrow> map_of (balanceCollection db) (balanceId x a i)
      | Some (v, w) \<Rightarrow>
          Some (upsertedDocument x a i v w b (BalanceRepository_isObservable db x)
                  (map_of (balanceCollection db) (balanceId x a i))))"
proof (induction cs rule: rev_induct)
  case Nil
  show ?case by simp
next
  case (snoc c cs)
  obtain y v w where c: "c = (y, v, w)" by (cases c)
  let ?db = "foldl (applyChange a i b) db cs"
  have obs: "BalanceRepository_isObservable ?db y = BalanceRepository_isObservable db y"
    by (simp add: BalanceRepository_isObservable_def changes_addresses)
  show ?case
  proof (cases "x = y")
    case True
    show ?thesis
    proof (cases "map_of (rev cs) y")
      case None
      with snoc.IH True show ?thesis
        by (simp add: c applyChange_triple upsert_lookup obs)
    next
      case (Some p)
      obtain v' w' where p: "p = (v', w')" by (cases p)
      with snoc.IH True Some show ?thesis
        by (simp add: c applyChange_triple upsert_lookup obs upsertedDocument_again)
    qed
  next
    case False
    with snoc.IH show ?thesis
      by (simp add: c applyChange_triple upsert_lookup balanceId_inject)
  qed
qed


lemma recordOperationAction_stores:
  "balanceDb (recordOperationAction operation oid b bt tx s pa) =
     foldl (applyChange (Operation_AssetId operation) oid b) (balanceDb s) (plannedChanges [pa])"
  "historyTable (recordOperationAction operation oid b bt tx s pa) =
     (historyTable s)((tx, RowKey pa) \<mapsto> plannedHistory operation oid b bt tx pa)"
  by (simp_all add: recordOperationAction_def Let_def recordBalanceChanges_pair plannedChanges_def
        applyChange_triple plannedHistory_def balanceRepository_upsert_fields
        historyRepository_upsert_fields)

lemma plannedChanges_Cons:
  "plannedChanges (pa # pas) = plannedChanges [pa] @ plannedChanges pas"
  by (simp add: plannedChanges_def)

lemma balanceDb_planned:
  "balanceDb (foldl (recordOperationAction operation oid b bt tx) s pas) =
     foldl (applyChange (Operation_AssetId operation) oid b) (balanceDb s) (plannedChanges pas)"
proof (induction pas arbitrary: s)
  case Nil
  show ?case by (simp add: plannedChanges_def)
next
  case (Cons pa pas)
  show ?case
    unfolding plannedChanges_Cons [of pa pas] foldl_append
    by (simp only: foldl_Cons Cons.IH recordOperationAction_stores(1))
qed




lemma upsertedDocument_fields:
  "Address (upsertedDocument x a i v w b obs old) = Some x"
  "AssetId (upsertedDocument x a i v w b obs old) = Some a"
  "OperationOrTxId (upsertedDocument x a i v w b obs old) = Some i"
  "Amount (upsertedDocument x a i v w b obs old) = Some v"
  "AmountInBaseUnit (upsertedDocument x a i v w b obs old) = Some w"
  "Block (upsertedDocument x a i v w b obs old) = Some b"
  "IsObservable (upsertedDocument x a i v w b obs old) = Some obs"
  by (simp_all add: upsertedDocument_def)


lemma internal_applies:
  assumes "act_op a = (''transfer'', Some payload)"
    and "getOperationIdByTxId (operationStore s) (act_trx_id a) = Some operationId"
    and "operationId \<noteq> []"
    and "OperationRepository_get (operationStore s) operationId = Some operation"
    and "\<not> isCompleted operation"
  shows "applyAction e now n a s =
     Inr (operationRepository_update operationId
            (completion now (isoUTC e (act_timestamp a)) (act_block a * 10))
            (foldl (recordOperationAction operation operationId (act_block a * 10)
                      (isoUTC e (act_timestamp a)) (act_trx_id a))
               s (getActions (operationStore s) operationId)))"
  using assms by (simp add: applyAction_def internalTransfer_def Let_def completion_def)




lemmas example_eval =
  exampleState_def exampleOperations_def exampleEnv_def pendingOperation_def completedOperation_def
  plannedAction_def voteAction_def depositAction_def withdrawalAction_def replayedAction_def
  unknownAssetAction_def badAddressAction_def pendingAction_def exampleChain_def steemAsset_def
  getOperationIdByTxId_def getActions_def OperationRepository_get_def geOperationIdByExpiryTime_def
  isCompleted_def isFailed_def

lemma example_timestamp: "isoUTC exampleEnv ''3000'' = 3000"
  by (simp add: exampleEnv_def digitsValue_def digitValue_def)










lemma withdrawnState_eq:
  "withdrawnState =
     operationRepository_update ''op1'' (completion 50 3000 920)
       (foldl (recordOperationAction pendingOperation ''op1'' 920 3000 ''T2'') exampleState
          [plannedAction])"
proof -
  have ts: "digitsValue ''3000'' = 3000"
    by (simp add: digitsValue_def digitValue_def)
  show ?thesis
    by (simp add: withdrawnState_def applyAction_def internalTransfer_def Let_def completion_def
          withdrawalAction_def exampleState_def exampleOperations_def exampleEnv_def
          getOperationIdByTxId_def getActions_def OperationRepository_get_def isCompleted_def
          pendingOperation_def ts)
qed

theorem completed_replay_witness:
  "processAction exampleEnv 60 2 withdrawalAction withdrawnState
     = Inr (paramsRepository_upsert (sequenceCheckpoint 2) withdrawnState)
   \<and> journal (paramsRepository_upsert (sequenceCheckpoint 2) withdrawnState)
     = journal withdrawnState @ [ParamsUpsert (sequenceCheckpoint 2)]
   \<and> checkpointSequence (paramsRepository_upsert (sequenceCheckpoint 2) withdrawnState) = Some 3"
proof -
  have st: "operationStore withdrawnState
      = OperationRepository_update ''op1'' (completion 50 3000 920) exampleOperations"
    by (simp add: withdrawnState_eq operationRepository_update_fields
          recordOperationAction_fields exampleState_def)
  have h1: "act_op withdrawalAction
      = (''transfer'', Some \<lparr>transfer_from = ''hot'', transfer_to = ''C'',
                              transfer_amount = ''2.000 STEEM'', transfer_memo = []\<rparr>)"
    by (simp add: withdrawalAction_def)
  have h2: "getOperationIdByTxId (operationStore withdrawnState) (act_trx_id withdrawalAction)
      = Some ''op1''"
    by (simp add: st getOperationIdByTxId_def OperationRepository_update_def exampleOperations_def
          withdrawalAction_def)
  have h3: "OperationRepository_get (operationStore withdrawnState) ''op1''
      = Some (mergeOperation (completion 50 3000 920) pendingOperation)"
    by (simp add: st OperationRepository_get_def OperationRepository_update_def
          exampleOperations_def)
  have h4: "isCompleted (mergeOperation (completion 50 3000 920) pendingOperation)"
    by (simp add: isCompleted_def mergeOperation_def completion_def)
  have h5: "''op1'' \<noteq> []" by simp
  show ?thesis
    using completed_replay [OF h1 h2 h5 h3 h4, of exampleEnv 60 2] by simp
qed

lemma failedState_reads:
  "act_op withdrawalAction
      = (''transfer'', Some \<lparr>transfer_from = ''hot'', transfer_to = ''C'',
                              transfer_amount = ''2.000 STEEM'', transfer_memo = []\<rparr>)"
  "getOperationIdByTxId (operationStore failedState) (act_trx_id withdrawalAction) = Some ''op1''"
  "OperationRepository_get (operationStore failedState) ''op1'' = Some failedOperation"
  "\<not> isCompleted failedOperation" "isFailed failedOperation"
  "getActions (operationStore failedState) ''op1'' = [plannedAction]"
  by (simp_all add: withdrawalAction_def failedState_def exampleState_def exampleOperations_def
        getOperationIdByTxId_def OperationRepository_get_def getActions_def isCompleted_def
        isFailed_def failedOperation_def pendingOperation_def)

lemma reappliedState_eq:
  "applyAction exampleEnv 50 2 withdrawalAction failedState = Inr reappliedState"
  "reappliedState =
     operationRepository_update ''op1'' (completion 50 3000 920)
       (foldl (recordOperationAction failedOperation ''op1'' 920 3000 ''T2'') failedState
          [plannedAction])"
proof -
  have run: "applyAction exampleEnv 50 2 withdrawalAction failedState =
     Inr (operationRepository_update ''op1'' (completion 50 3000 920)
            (foldl (recordOperationAction failedOperation ''op1'' 920 3000 ''T2'') failedState
               [plannedAction]))"
    using internal_applies [OF failedState_reads(1,2) _ failedState_reads(3,4), of exampleEnv 50 2]
    by (simp add: failedState_reads(6) withdrawalAction_def example_timestamp)
  then show "reappliedState =
     operationRepository_update ''op1'' (completion 50 3000 920)
       (foldl (recordOperationAction failedOperation ''op1'' 920 3000 ''T2'') failedState
          [plannedAction])"
    by (simp add: reappliedState_def)
  with run show "applyAction exampleEnv 50 2 withdrawalAction failedState = Inr reappliedState"
    by simp
qed


text \<open>
  C2, as stated, fails for an operation that is terminal by failure: \<open>op1\<close> has been
  failed by the expiry sweep and is not completed; when its transaction \<open>T2\<close> is
  observed, the action is applied all the same, with the debit, the credit, the history
  entry and the completing update, and the operation ends both failed and completed.
\<close>

theorem completed_replay_counterexample:
  "OperationRepository_get (operationStore failedState) ''op1'' = Some failedOperation
   \<and> isFailed failedOperation
   \<and> applyAction exampleEnv 50 2 withdrawalAction failedState = Inr reappliedState
   \<and> journal reappliedState =
       [BalanceUpsert ''hot'' ''1'' ''op1'' (Num (- 2)) (Num (- 2000)) 920,
        BalanceUpsert ''C'' ''1'' ''op1'' (Num 2) (Num 2000) 920,
        HistoryUpsert
          \<lparr>History_fromAddress = ''hot'', History_toAddress = ''C'', History_assetId = ''1'',
           History_amount = Num 2, History_amountInBaseUnit = Num 2000, History_block = 920,
           History_blockTime = 3000, History_txId = ''T2'', History_actionId = ''0'',
           History_operationId = Some ''op1''\<rparr>,
        OperationUpdate ''op1'' (completion 50 3000 920)]
   \<and> map_option Amount (map_of (balanceCollection (balanceDb reappliedState)) ''hot_1_op1'')
       = Some (Some (Num (- 2)))
   \<and> map_option Completed (operationTable (operationStore reappliedState) ''op1'') = Some True
   \<and> map_option Failed (operationTable (operationStore reappliedState) ''op1'') = Some True"
proof -
  have j: "journal reappliedState =
       [BalanceUpsert ''hot'' ''1'' ''op1'' (Num (- 2)) (Num (- 2000)) 920,
        BalanceUpsert ''C'' ''1'' ''op1'' (Num 2) (Num 2000) 920,
        HistoryUpsert
          \<lparr>History_fromAddress = ''hot'', History_toAddress = ''C'', History_assetId = ''1'',
           History_amount = Num 2, History_amountInBaseUnit = Num 2000, History_block = 920,
           History_blockTime = 3000, History_txId = ''T2'', History_actionId = ''0'',
           History_operationId = Some ''op1''\<rparr>,
        OperationUpdate ''op1'' (completion 50 3000 920)]"
    by (simp add: reappliedState_eq(2) operationRepository_update_fields
          recordOperationAction_fields plannedWrites_def plannedAction_def failedOperation_def
          pendingOperation_def failedState_def exampleState_def)
  have db: "balanceDb reappliedState =
      foldl (applyChange ''1'' ''op1'' 920) (balanceDb failedState) (plannedChanges [plannedAction])"
    unfolding reappliedState_eq(2) operationRepository_update_fields balanceDb_planned
    by (simp add: failedOperation_def pendingOperation_def)
  have b: "map_option Amount (map_of (balanceCollection (balanceDb reappliedState)) ''hot_1_op1'')
       = Some (Some (Num (- 2)))"
    using changes_lookup [of "''1''" "''op1''" 920 "balanceDb failedState"
        "plannedChanges [plannedAction]" "''hot''"]
    unfolding db
    by (simp add: plannedChanges_def plannedAction_def balanceId_def upsertedDocument_fields)
  have o: "operationTable (operationStore reappliedState) ''op1''
      = Some (mergeOperation (completion 50 3000 920) failedOperation)"
    by (simp add: reappliedState_eq(2) operationRepository_update_fields
          recordOperationAction_fields OperationRepository_update_def failedState_def
          exampleState_def exampleOperations_def)
  have c: "map_option Completed (operationTable (operationStore reappliedState) ''op1'') = Some True"
    "map_option Failed (operationTable (operationStore reappliedState) ''op1'') = Some True"
    by (simp_all add: o mergeOperation_def completion_def failedOperation_def)
  show ?thesis
    using failedState_reads(3,5) reappliedState_eq(1) j b c by simp
qed


section \<open>The loop body and the loop\<close>

lemma checkpoint_only:
  "balanceDb (paramsRepository_upsert (sequenceCheckpoint n) s) = balanceDb s"
  "historyTable (paramsRepository_upsert (sequenceCheckpoint n) s) = historyTable s"
  "operationStore (paramsRepository_upsert (sequenceCheckpoint n) s) = operationStore s"
  "journal (paramsRepository_upsert (sequenceCheckpoint n) s)
     = journal s @ [ParamsUpsert (sequenceCheckpoint n)]"
  "checkpointSequence (paramsRepository_upsert (sequenceCheckpoint n) s) = Some (n + 1)"
  "checkpointTime (paramsRepository_upsert (sequenceCheckpoint n) s) = checkpointTime s"
  by (simp_all add: paramsRepository_upsert_fields checkpointSequence_def checkpointTime_def
        ParamsRepository_upsert_def insertOrMerge_def ParamsRepository_entity_def
        sequenceCheckpoint_def split: option.splits)

lemma processAction_Inr:
  "applyAction e now n a s = Inr s' \<Longrightarrow>
   processAction e now n a s = Inr (paramsRepository_upsert (sequenceCheckpoint n) s')"
  by (simp add: processAction_def sequenceCheckpoint_def)

lemma handleLoop_step:
  "actionAt c n = Some a \<Longrightarrow> act_block a \<le> g \<Longrightarrow> processAction e now n a s = Inr s1 \<Longrightarrow>
   handleLoop c e now g n s = handleLoop c e now g (n + 1) s1"
  by (subst handleLoop.simps) simp

lemma handleLoop_fail:
  "actionAt c n = Some a \<Longrightarrow> act_block a \<le> g \<Longrightarrow> processAction e now n a s = Inl err \<Longrightarrow>
   handleLoop c e now g n s = (Inl err, s)"
  by (subst handleLoop.simps) simp

lemma handleLoop_stop:
  "\<not> irreversibleAt c g n \<Longrightarrow> handleLoop c e now g n s = (Inr g, s)"
  by (subst handleLoop.simps) (simp add: irreversibleAt_def split: option.splits)

lemma externalTransfer_dropped:
  "AssetRepository_get e (snd (split2 (transfer_amount payload))) = None
     \<or> \<not> isSteemAddress e (effectiveDestination e payload) \<Longrightarrow>
   externalTransfer e payload oid b bt tx ai s = s"
  by (auto simp: externalTransfer_def effectiveDestination_def Let_def split: option.splits)

lemma applyAction_external:
  "act_op a = (''transfer'', Some payload) \<Longrightarrow> isExternal s a \<Longrightarrow>
   applyAction e now n a s =
     Inr (externalTransfer e payload (getOperationIdByTxId (operationStore s) (act_trx_id a))
            (act_block a * 10) (isoUTC e (act_timestamp a)) (act_trx_id a) (toString n) s)"
  by (auto simp: applyAction_def isExternal_def Let_def split: option.splits)

section \<open>Actions that are dropped\<close>

text \<open>
  C6. An action that is not a transfer, and an external transfer whose asset symbol the
  directory does not resolve or whose effective destination (destination, separator and
  memo when there is a memo) is not a valid address, is applied without any write: the
  balance store and the history are unchanged. The loop body still succeeds and writes
  the checkpoint with the next sequence number, and the loop goes on with the action
  after it.
\<close>

theorem dropped_action:
  assumes "fst (act_op a) \<noteq> ''transfer''
     \<or> (\<exists>payload. act_op a = (''transfer'', Some payload) \<and> isExternal s a
          \<and> (AssetRepository_get e (snd (split2 (transfer_amount payload))) = None
               \<or> \<not> isSteemAddress e (effectiveDestination e payload)))"
  shows "applyAction e now n a s = Inr s
    \<and> processAction e now n a s = Inr (paramsRepository_upsert (sequenceCheckpoint n) s)
    \<and> balanceDb (paramsRepository_upsert (sequenceCheckpoint n) s) = balanceDb s
    \<and> historyTable (paramsRepository_upsert (sequenceCheckpoint n) s) = historyTable s
    \<and> journal (paramsRepository_upsert (sequenceCheckpoint n) s)
        = journal s @ [ParamsUpsert (sequenceCheckpoint n)]
    \<and> checkpointSequence (paramsRepository_upsert (sequenceCheckpoint n) s) = Some (n + 1)
    \<and> (actionAt c n = Some a \<and> act_block a \<le> g \<longrightarrow>
         handleLoop c e now g n s
           = handleLoop c e now g (n + 1) (paramsRepository_upsert (sequenceCheckpoint n) s))"
proof -
  have app: "applyAction e now n a s = Inr s"
    using assms
  proof
    assume "fst (act_op a) \<noteq> ''transfer''"
    then show ?thesis by (simp add: applyAction_def Let_def)
  next
    assume "\<exists>payload. act_op a = (''transfer'', Some payload) \<and> isExternal s a
          \<and> (AssetRepository_get e (snd (split2 (transfer_amount payload))) = None
               \<or> \<not> isSteemAddress e (effectiveDestination e payload))"
    then obtain payload where p: "act_op a = (''transfer'', Some payload)" "isExternal s a"
      and d: "AssetRepository_get e (snd (split2 (transfer_amount payload))) = None
               \<or> \<not> isSteemAddress e (effectiveDestination e payload)"
      by blast
    show ?thesis
      by (simp add: applyAction_external [OF p] externalTransfer_dropped [OF d])
  qed
  then have pr: "processAction e now n a s = Inr (paramsRepository_upsert (sequenceCheckpoint n) s)"
    by (rule processAction_Inr)
  show ?thesis
    using app pr by (simp add: checkpoint_only handleLoop_step)
qed

lemma parse_example:
  "split2 ''10.5 STEEM'' = (''10.5'', Some ''STEEM'')"
  "parseFloat ''10.5'' = Num 10.5"
  by (simp_all add: split2_def parseFloat_def isWhiteSpace_def isDigit_def digitValue_def
        digitsValue_def)


lemma actionAt_exampleChain:
  "actionAt exampleChain 0 = Some voteAction"
  "actionAt exampleChain 1 = Some depositAction"
  "actionAt exampleChain 2 = Some withdrawalAction"
  "actionAt exampleChain 3 = Some pendingAction"
  "actionAt exampleChain 4 = None"
  by (simp_all add: actionAt_def getAccountHistoryAsync_def exampleChain_def Let_def)

theorem dropped_action_witness:
  "processAction exampleEnv 50 0 voteAction exampleState
     = Inr (paramsRepository_upsert (sequenceCheckpoint 0) exampleState)
   \<and> processAction exampleEnv 50 4 unknownAssetAction exampleState
     = Inr (paramsRepository_upsert (sequenceCheckpoint 4) exampleState)
   \<and> processAction exampleEnv 50 5 badAddressAction exampleState
     = Inr (paramsRepository_upsert (sequenceCheckpoint 5) exampleState)
   \<and> balanceDb (paramsRepository_upsert (sequenceCheckpoint 5) exampleState) = balanceDb exampleState
   \<and> historyTable (paramsRepository_upsert (sequenceCheckpoint 5) exampleState)
     = historyTable exampleState
   \<and> checkpointSequence (paramsRepository_upsert (sequenceCheckpoint 5) exampleState) = Some 6
   \<and> handleLoop exampleChain exampleEnv 50 100 0 exampleState
     = handleLoop exampleChain exampleEnv 50 100 1
         (paramsRepository_upsert (sequenceCheckpoint 0) exampleState)"
proof -
  have vote: "fst (act_op voteAction) \<noteq> ''transfer''"
    by (simp add: voteAction_def)
  have ext4: "isExternal exampleState unknownAssetAction"
    and ext5: "isExternal exampleState badAddressAction"
    by (simp_all add: isExternal_def getOperationIdByTxId_def exampleState_def
          exampleOperations_def unknownAssetAction_def badAddressAction_def)
  have sbd: "AssetRepository_get exampleEnv (snd (split2 ''1.000 SBD'')) = None"
    by (simp add: exampleEnv_def split2_def)
  have bad: "\<not> isSteemAddress exampleEnv
      (effectiveDestination exampleEnv
         \<lparr>transfer_from = ''A'', transfer_to = ''B'', transfer_amount = ''1.000 STEEM'',
          transfer_memo = ''a b''\<rparr>)"
    by (simp add: exampleEnv_def effectiveDestination_def)
  have h4: "fst (act_op unknownAssetAction) \<noteq> ''transfer''
     \<or> (\<exists>payload. act_op unknownAssetAction = (''transfer'', Some payload)
          \<and> isExternal exampleState unknownAssetAction
          \<and> (AssetRepository_get exampleEnv (snd (split2 (transfer_amount payload))) = None
               \<or> \<not> isSteemAddress exampleEnv (effectiveDestination exampleEnv payload)))"
    using ext4 sbd by (simp add: unknownAssetAction_def)
  have h5: "fst (act_op badAddressAction) \<noteq> ''transfer''
     \<or> (\<exists>payload. act_op badAddressAction = (''transfer'', Some payload)
          \<and> isExternal exampleState badAddressAction
          \<and> (AssetRepository_get exampleEnv (snd (split2 (transfer_amount payload))) = None
               \<or> \<not> isSteemAddress exampleEnv (effectiveDestination exampleEnv payload)))"
    using ext5 bad by (simp add: badAddressAction_def)
  have blk: "act_block voteAction \<le> 100"
    by (simp add: voteAction_def)
  show ?thesis
    using dropped_action [of voteAction exampleState exampleEnv 50 0 exampleChain 100]
      dropped_action [OF h4, of 50 4 exampleChain 100]
      dropped_action [OF h5, of 50 5 exampleChain 100]
      vote blk actionAt_exampleChain(1)
    by simp
qed

section \<open>An external deposit\<close>

text \<open>
  C8. An external transfer of \<^verbatim>\<open>10.5 STEEM\<close> from \<open>A\<close> to \<open>B\<close> without memo in
  transaction \<open>T1\<close>, where the directory resolves STEEM to asset \<open>1\<close> with the
  base-unit factor 1000: the writes are one history entry under \<open>(T1, actionId)\<close>, the
  action id being the sequence number in decimal, the balance entry of \<open>A\<close> with amount
  \<open>-10.5\<close> and \<open>-10500\<close> base units, and the balance entry of \<open>B\<close> with \<open>10.5\<close> and
  \<open>10500\<close>; both balance documents are stored under their composite ids.
\<close>

theorem deposit_example:
  assumes "act_op a = (''transfer'',
              Some \<lparr>transfer_from = ''A'', transfer_to = ''B'', transfer_amount = ''10.5 STEEM'',
                    transfer_memo = []\<rparr>)"
    and "act_trx_id a = ''T1''"
    and "getOperationIdByTxId (operationStore s) ''T1'' = None"
    and "AssetRepository_get e (Some ''STEEM'') = Some asset"
    and "Asset_AssetId asset = ''1''"
    and "toBaseUnit asset = scale 1000"
    and "isSteemAddress e ''B''"
  shows "\<exists>s' docA docB.
      applyAction e now n a s = Inr s'
    \<and> journal s' =
        journal s
        @ [HistoryUpsert
             \<lparr>History_fromAddress = ''A'', History_toAddress = ''B'', History_assetId = ''1'',
              History_amount = Num 10.5, History_amountInBaseUnit = Num 10500,
              History_block = act_block a * 10, History_blockTime = isoUTC e (act_timestamp a),
              History_txId = ''T1'', History_actionId = toString n, History_operationId = None\<rparr>,
           BalanceUpsert ''A'' ''1'' ''T1'' (Num (- 10.5)) (Num (- 10500)) (act_block a * 10),
           BalanceUpsert ''B'' ''1'' ''T1'' (Num 10.5) (Num 10500) (act_block a * 10)]
    \<and> historyTable s' =
        (historyTable s)((''T1'', toString n) \<mapsto>
             \<lparr>History_fromAddress = ''A'', History_toAddress = ''B'', History_assetId = ''1'',
              History_amount = Num 10.5, History_amountInBaseUnit = Num 10500,
              History_block = act_block a * 10, History_blockTime = isoUTC e (act_timestamp a),
              History_txId = ''T1'', History_actionId = toString n, History_operationId = None\<rparr>)
    \<and> map_of (balanceCollection (balanceDb s')) ''A_1_T1'' = Some docA
    \<and> Address docA = Some ''A'' \<and> AssetId docA = Some ''1'' \<and> OperationOrTxId docA = Some ''T1''
    \<and> Amount docA = Some (Num (- 10.5)) \<and> AmountInBaseUnit docA = Some (Num (- 10500))
    \<and> map_of (balanceCollection (balanceDb s')) ''B_1_T1'' = Some docB
    \<and> Address docB = Some ''B'' \<and> AssetId docB = Some ''1'' \<and> OperationOrTxId docB = Some ''T1''
    \<and> Amount docB = Some (Num 10.5) \<and> AmountInBaseUnit docB = Some (Num 10500)"
proof -
  let ?b = "act_block a * 10" and ?bt = "isoUTC e (act_timestamp a)"
  let ?h = "historyRepository_upsert ''A'' ''B'' ''1'' (Num 10.5) (Num 10500) ?b ?bt ''T1''
              (toString n) None s"
  let ?s' = "balanceRepository_upsert ''B'' ''1'' ''T1'' (Num 10.5) (Num 10500) ?b
               (balanceRepository_upsert ''A'' ''1'' ''T1'' (Num (- 10.5)) (Num (- 10500)) ?b ?h)"
  have ext: "isExternal s a"
    using assms(2,3) by (simp add: isExternal_def)
  have app: "applyAction e now n a s = Inr ?s'"
    using assms
    by (simp add: applyAction_external [OF assms(1) ext] externalTransfer_def parse_example
          Let_def recordBalanceChanges_pair)
  have j: "journal ?s' = journal s
        @ [HistoryUpsert
             \<lparr>History_fromAddress = ''A'', History_toAddress = ''B'', History_assetId = ''1'',
              History_amount = Num 10.5, History_amountInBaseUnit = Num 10500,
              History_block = ?b, History_blockTime = ?bt,
              History_txId = ''T1'', History_actionId = toString n, History_operationId = None\<rparr>,
           BalanceUpsert ''A'' ''1'' ''T1'' (Num (- 10.5)) (Num (- 10500)) ?b,
           BalanceUpsert ''B'' ''1'' ''T1'' (Num 10.5) (Num 10500) ?b]"
    by (simp add: balanceRepository_upsert_fields historyRepository_upsert_fields)
  have h: "historyTable ?s' =
        (historyTable s)((''T1'', toString n) \<mapsto>
             \<lparr>History_fromAddress = ''A'', History_toAddress = ''B'', History_assetId = ''1'',
              History_amount = Num 10.5, History_amountInBaseUnit = Num 10500,
              History_block = ?b, History_blockTime = ?bt,
              History_txId = ''T1'', History_actionId = toString n, History_operationId = None\<rparr>)"
    by (simp add: balanceRepository_upsert_fields historyRepository_upsert_fields)
  have "\<exists>docA. map_of (balanceCollection (balanceDb ?s')) ''A_1_T1'' = Some docA
    \<and> Address docA = Some ''A'' \<and> AssetId docA = Some ''1'' \<and> OperationOrTxId docA = Some ''T1''
    \<and> Amount docA = Some (Num (- 10.5)) \<and> AmountInBaseUnit docA = Some (Num (- 10500))"
    by (simp add: balanceRepository_upsert_fields historyRepository_upsert_fields
          BalanceRepository_upsert_def balanceId_def map_of_updateOne Let_def)
  moreover have "\<exists>docB. map_of (balanceCollection (balanceDb ?s')) ''B_1_T1'' = Some docB
    \<and> Address docB = Some ''B'' \<and> AssetId docB = Some ''1'' \<and> OperationOrTxId docB = Some ''T1''
    \<and> Amount docB = Some (Num 10.5) \<and> AmountInBaseUnit docB = Some (Num 10500)"
    by (simp add: balanceRepository_upsert_fields historyRepository_upsert_fields
          BalanceRepository_upsert_def balanceId_def map_of_updateOne Let_def)
  ultimately show ?thesis
    using app j h by blast
qed


lemma toString_small:
  "toString 0 = ''0''" "toString 1 = ''1''" "toString (Suc 0) = ''1''" "toString 2 = ''2''"
  "toString 3 = ''3''"
  by (simp_all add: toString_def toFixed_def digit_char_def decimal.simps)

theorem deposit_example_witness:
  "\<exists>s' docA docB.
      applyAction exampleEnv 50 1 depositAction exampleState = Inr s'
    \<and> journal s' =
        [HistoryUpsert
           \<lparr>History_fromAddress = ''A'', History_toAddress = ''B'', History_assetId = ''1'',
            History_amount = Num 10.5, History_amountInBaseUnit = Num 10500,
            History_block = 910, History_blockTime = 2000,
            History_txId = ''T1'', History_actionId = ''1'', History_operationId = None\<rparr>,
         BalanceUpsert ''A'' ''1'' ''T1'' (Num (- 10.5)) (Num (- 10500)) 910,
         BalanceUpsert ''B'' ''1'' ''T1'' (Num 10.5) (Num 10500) 910]
    \<and> map_of (balanceCollection (balanceDb s')) ''A_1_T1'' = Some docA
    \<and> Amount docA = Some (Num (- 10.5)) \<and> AmountInBaseUnit docA = Some (Num (- 10500))
    \<and> map_of (balanceCollection (balanceDb s')) ''B_1_T1'' = Some docB
    \<and> Amount docB = Some (Num 10.5) \<and> AmountInBaseUnit docB = Some (Num 10500)"
proof -
  have ts: "digitsValue ''2000'' = 2000"
    by (simp add: digitsValue_def digitValue_def)
  have h1: "act_op depositAction = (''transfer'',
              Some \<lparr>transfer_from = ''A'', transfer_to = ''B'', transfer_amount = ''10.5 STEEM'',
                    transfer_memo = []\<rparr>)"
    and h2: "act_trx_id depositAction = ''T1''"
    and h3: "getOperationIdByTxId (operationStore exampleState) ''T1'' = None"
    and h4: "AssetRepository_get exampleEnv (Some ''STEEM'') = Some steemAsset"
    and h5: "Asset_AssetId steemAsset = ''1''"
    and h6: "toBaseUnit steemAsset = scale 1000"
    and h7: "isSteemAddress exampleEnv ''B''"
    by (simp_all add: depositAction_def getOperationIdByTxId_def exampleState_def
          exampleOperations_def exampleEnv_def steemAsset_def)
  from deposit_example [OF h1 h2 h3 h4 h5 h6 h7, of 50 1]
  obtain s' docA docB where
      "applyAction exampleEnv 50 1 depositAction exampleState = Inr s'"
      "journal s' =
        journal exampleState
        @ [HistoryUpsert
             \<lparr>History_fromAddress = ''A'', History_toAddress = ''B'', History_assetId = ''1'',
              History_amount = Num 10.5, History_amountInBaseUnit = Num 10500,
              History_block = act_block depositAction * 10,
              History_blockTime = isoUTC exampleEnv (act_timestamp depositAction),
              History_txId = ''T1'', History_actionId = toString 1, History_operationId = None\<rparr>,
           BalanceUpsert ''A'' ''1'' ''T1'' (Num (- 10.5)) (Num (- 10500)) (act_block depositAction * 10),
           BalanceUpsert ''B'' ''1'' ''T1'' (Num 10.5) (Num 10500) (act_block depositAction * 10)]"
      "map_of (balanceCollection (balanceDb s')) ''A_1_T1'' = Some docA"
      "Amount docA = Some (Num (- 10.5))" "AmountInBaseUnit docA = Some (Num (- 10500))"
      "map_of (balanceCollection (balanceDb s')) ''B_1_T1'' = Some docB"
      "Amount docB = Some (Num 10.5)" "AmountInBaseUnit docB = Some (Num 10500)"
    by blast
  then show ?thesis
    by (simp add: depositAction_def exampleState_def exampleEnv_def ts toString_small)
qed

section \<open>The block that the writes of an action record\<close>

lemma set_updateOne:
  "(k, d) \<in> set (updateOne i f docs) \<Longrightarrow> (k, d) \<in> set docs \<or> (\<exists>d0. d = f d0)"
  by (induction docs) (auto split: if_splits)

lemma stamped_refl: "stamped b s s"
  by (auto simp: stamped_def)

lemma stamped_balance:
  assumes "stamped b s s1"
  shows "stamped b s (balanceRepository_upsert a i t v w b s1)"
proof -
  have "\<And>k d. (k, d) \<in> set (balanceCollection (BalanceRepository_upsert a i t v w b (balanceDb s1)))
      \<Longrightarrow> (k, d) \<in> set (balanceCollection (balanceDb s1)) \<or> Block d = Some b"
    by (auto simp: BalanceRepository_upsert_def Let_def dest!: set_updateOne)
  then show ?thesis
    using assms
    by (simp add: stamped_def balanceRepository_upsert_fields) blast
qed

lemma stamped_history:
  assumes "stamped b s s1"
  shows "stamped b s (historyRepository_upsert f t i v w b bt tx ai oi s1)"
  using assms by (auto simp: stamped_def historyRepository_upsert_fields)

lemma stamped_operation:
  assumes "stamped b s s1"
  shows "stamped b s (operationRepository_update i p s1)"
  using assms by (simp add: stamped_def operationRepository_update_fields)

lemma stamped_recordOperationAction:
  "stamped b s s1 \<Longrightarrow> stamped b s (recordOperationAction operation oid b bt tx s1 pa)"
  by (simp add: recordOperationAction_def Let_def recordBalanceChanges_pair stamped_balance
        stamped_history)

lemma stamped_foldl:
  "stamped b s s1 \<Longrightarrow> stamped b s (foldl (recordOperationAction operation oid b bt tx) s1 pas)"
  by (induction pas arbitrary: s1) (simp_all add: stamped_recordOperationAction)

lemma plannedWrites_blocks:
  "w \<in> set (plannedWrites operation oid b bt tx pa) \<Longrightarrow>
   isLedgerWrite w \<and> writtenBlock w = Some b"
  by (auto simp: plannedWrites_def)

text \<open>What an external transfer writes.\<close>

lemma externalTransfer_recorded:
  assumes "AssetRepository_get e (snd (split2 (transfer_amount payload))) = Some asset"
    and "isSteemAddress e (effectiveDestination e payload)"
  shows "externalTransfer e payload oid b bt tx ai s =
     balanceRepository_upsert (effectiveDestination e payload) (Asset_AssetId asset) tx
       (parseFloat (fst (split2 (transfer_amount payload))))
       (toBaseUnit asset (parseFloat (fst (split2 (transfer_amount payload))))) b
       (balanceRepository_upsert (transfer_from payload) (Asset_AssetId asset) tx
          (neg (parseFloat (fst (split2 (transfer_amount payload)))))
          (neg (toBaseUnit asset (parseFloat (fst (split2 (transfer_amount payload)))))) b
          (historyRepository_upsert (transfer_from payload) (effectiveDestination e payload)
             (Asset_AssetId asset) (parseFloat (fst (split2 (transfer_amount payload))))
             (toBaseUnit asset (parseFloat (fst (split2 (transfer_amount payload)))))
             b bt tx ai oid s))"
  using assms
  by (simp add: externalTransfer_def effectiveDestination_def Let_def recordBalanceChanges_pair)

lemma externalTransfer_writes:
  "\<exists>ws. journal (externalTransfer e payload oid b bt tx ai s) = journal s @ ws
      \<and> (\<forall>w \<in> set ws. isLedgerWrite w \<and> writtenBlock w = Some b)
      \<and> paramsTable (externalTransfer e payload oid b bt tx ai s) = paramsTable s
      \<and> operationStore (externalTransfer e payload oid b bt tx ai s) = operationStore s
      \<and> stamped b s (externalTransfer e payload oid b bt tx ai s)"
proof (cases "AssetRepository_get e (snd (split2 (transfer_amount payload))) = None
     \<or> \<not> isSteemAddress e (effectiveDestination e payload)")
  case True
  then have "externalTransfer e payload oid b bt tx ai s = s"
    by (rule externalTransfer_dropped)
  then show ?thesis by (simp add: stamped_refl)
next
  case False
  then obtain asset where "AssetRepository_get e (snd (split2 (transfer_amount payload))) = Some asset"
    and "isSteemAddress e (effectiveDestination e payload)"
    by auto
  then show ?thesis
    by (simp add: externalTransfer_recorded balanceRepository_upsert_fields
          historyRepository_upsert_fields stamped_balance stamped_history stamped_refl)
qed

lemma internalTransfer_writes:
  assumes "internalTransfer now oid b bt tx s = Inr s'"
  shows "\<exists>ws. journal s' = journal s @ ws
      \<and> (\<forall>w \<in> set ws. (\<forall>p. w \<noteq> ParamsUpsert p)
            \<and> (isLedgerWrite w \<longrightarrow> writtenBlock w = Some b))
      \<and> paramsTable s' = paramsTable s
      \<and> stamped b s s'"
proof (cases "OperationRepository_get (operationStore s) oid")
  case None
  with assms show ?thesis by (simp add: internalTransfer_def Let_def)
next
  case (Some operation)
  show ?thesis
  proof (cases "isCompleted operation")
    case True
    with assms Some have "s' = s" by (simp add: internalTransfer_def Let_def)
    then show ?thesis by (simp add: stamped_refl)
  next
    case False
    let ?s1 = "foldl (recordOperationAction operation oid b bt tx) s
                 (getActions (operationStore s) oid)"
    from assms Some False
    have s': "s' = operationRepository_update oid (completion now bt b) ?s1"
      by (simp add: internalTransfer_def Let_def completion_def)
    have "journal s' = journal s
        @ (concat (map (plannedWrites operation oid b bt tx) (getActions (operationStore s) oid))
           @ [OperationUpdate oid (completion now bt b)])"
      by (simp add: s' operationRepository_update_fields foldl_recordOperationAction_fields)
    moreover have "\<forall>w \<in> set (concat (map (plannedWrites operation oid b bt tx)
                       (getActions (operationStore s) oid))
                     @ [OperationUpdate oid (completion now bt b)]).
        (\<forall>p. w \<noteq> ParamsUpsert p) \<and> (isLedgerWrite w \<longrightarrow> writtenBlock w = Some b)"
      by (auto dest: plannedWrites_blocks)
    moreover have "paramsTable s' = paramsTable s"
      by (simp add: s' operationRepository_update_fields foldl_recordOperationAction_fields)
    moreover have "stamped b s s'"
      by (simp add: s' stamped_operation stamped_foldl stamped_refl)
    ultimately show ?thesis by blast
  qed
qed

lemma applyAction_skip:
  "(if fst (act_op a) = ''transfer'' then snd (act_op a) else None) = None \<Longrightarrow>
   applyAction e now n a s = Inr s"
  by (simp add: applyAction_def Let_def)

lemma applyAction_internal:
  "(if fst (act_op a) = ''transfer'' then snd (act_op a) else None) = Some payload \<Longrightarrow>
   getOperationIdByTxId (operationStore s) (act_trx_id a) = Some ident \<Longrightarrow> ident \<noteq> [] \<Longrightarrow>
   applyAction e now n a s =
     internalTransfer now ident (act_block a * 10) (isoUTC e (act_timestamp a)) (act_trx_id a) s"
  by (simp add: applyAction_def Let_def)

lemma applyAction_not_internal:
  "(if fst (act_op a) = ''transfer'' then snd (act_op a) else None) = Some payload \<Longrightarrow>
   isExternal s a \<Longrightarrow>
   applyAction e now n a s =
     Inr (externalTransfer e payload (getOperationIdByTxId (operationStore s) (act_trx_id a))
            (act_block a * 10) (isoUTC e (act_timestamp a)) (act_trx_id a) (toString n) s)"
  by (simp add: applyAction_def isExternal_def Let_def split: option.splits)

lemma applyAction_writes:
  assumes "applyAction e now n a s = Inr s'"
  shows "\<exists>ws. journal s' = journal s @ ws
      \<and> (\<forall>w \<in> set ws. (\<forall>p. w \<noteq> ParamsUpsert p)
            \<and> (isLedgerWrite w \<longrightarrow> writtenBlock w = Some (act_block a * 10)))
      \<and> paramsTable s' = paramsTable s
      \<and> stamped (act_block a * 10) s s'"
proof (cases "if fst (act_op a) = ''transfer'' then snd (act_op a) else None")
  case None
  with assms have "s' = s" by (simp add: applyAction_skip)
  then show ?thesis by (simp add: stamped_refl)
next
  case (Some payload)
  let ?b = "act_block a * 10" and ?bt = "isoUTC e (act_timestamp a)" and ?tx = "act_trx_id a"
  show ?thesis
  proof (cases "isExternal s a")
    case True
    let ?oid = "getOperationIdByTxId (operationStore s) ?tx"
    from assms have s': "s' = externalTransfer e payload ?oid ?b ?bt ?tx (toString n) s"
      by (simp add: applyAction_not_internal [OF Some True])
    from externalTransfer_writes [of e payload ?oid ?b ?bt ?tx "toString n" s]
    obtain ws where j: "journal s' = journal s @ ws"
      and l: "\<forall>w \<in> set ws. isLedgerWrite w \<and> writtenBlock w = Some ?b"
      and p: "paramsTable s' = paramsTable s" and st: "stamped ?b s s'"
      unfolding s' by blast
    have "\<forall>w \<in> set ws. (\<forall>p. w \<noteq> ParamsUpsert p)
            \<and> (isLedgerWrite w \<longrightarrow> writtenBlock w = Some ?b)"
    proof
      fix w assume "w \<in> set ws"
      with l have "isLedgerWrite w" and "writtenBlock w = Some ?b" by auto
      then show "(\<forall>p. w \<noteq> ParamsUpsert p) \<and> (isLedgerWrite w \<longrightarrow> writtenBlock w = Some ?b)"
        by (cases w) simp_all
    qed
    with j p st show ?thesis by blast
  next
    case False
    then obtain ident where "getOperationIdByTxId (operationStore s) ?tx = Some ident"
      and "ident \<noteq> []"
      by (auto simp: isExternal_def split: option.splits)
    with assms Some have "internalTransfer now ident ?b ?bt ?tx s = Inr s'"
      by (simp add: applyAction_internal)
    then show ?thesis by (rule internalTransfer_writes)
  qed
qed

text \<open>
  C9. Every balance upsert and every history upsert made for an action carries the
  block \<open>action.block * 10\<close>, ten times the action's block number on the chain; and
  every balance document and history entry that the stores hold after the action and did
  not hold before records that block.
\<close>

theorem written_block:
  assumes "applyAction e now n a s = Inr s'"
  shows "(\<exists>ws. journal s' = journal s @ ws
           \<and> (\<forall>w \<in> set ws. isLedgerWrite w \<longrightarrow> writtenBlock w = Some (act_block a * 10)))
    \<and> (\<forall>(k, d) \<in> set (balanceCollection (balanceDb s')).
          (k, d) \<in> set (balanceCollection (balanceDb s)) \<or> Block d = Some (act_block a * 10))
    \<and> (\<forall>k h. historyTable s' k = Some h \<longrightarrow>
          historyTable s k = Some h \<or> History_block h = act_block a * 10)"
proof -
  from applyAction_writes [OF assms]
  obtain ws where "journal s' = journal s @ ws"
    and "\<forall>w \<in> set ws. (\<forall>p. w \<noteq> ParamsUpsert p)
            \<and> (isLedgerWrite w \<longrightarrow> writtenBlock w = Some (act_block a * 10))"
    and st: "stamped (act_block a * 10) s s'"
    by blast
  then have "\<exists>ws. journal s' = journal s @ ws
           \<and> (\<forall>w \<in> set ws. isLedgerWrite w \<longrightarrow> writtenBlock w = Some (act_block a * 10))"
    by blast
  with st show ?thesis
    unfolding stamped_def by blast
qed

lemma applyAction_withdrawal:
  "applyAction exampleEnv 50 2 withdrawalAction exampleState = Inr withdrawnState"
proof -
  have ts: "digitsValue ''3000'' = 3000"
    by (simp add: digitsValue_def digitValue_def)
  show ?thesis
    by (simp add: withdrawnState_eq applyAction_def internalTransfer_def Let_def completion_def
          withdrawalAction_def exampleState_def exampleOperations_def exampleEnv_def
          getOperationIdByTxId_def getActions_def OperationRepository_get_def isCompleted_def
          pendingOperation_def ts)
qed

theorem written_block_witness:
  "applyAction exampleEnv 50 2 withdrawalAction exampleState = Inr withdrawnState
   \<and> (\<exists>ws. journal withdrawnState = journal exampleState @ ws
         \<and> (\<forall>w \<in> set ws. isLedgerWrite w \<longrightarrow> writtenBlock w = Some 920))
   \<and> (\<exists>d. (''hot_1_op1'', d) \<in> set (balanceCollection (balanceDb withdrawnState))
         \<and> Block d = Some 920)"
proof -
  have blk: "act_block withdrawalAction * 10 = 920"
    by (simp add: withdrawalAction_def)
  have doc: "\<exists>d. (''hot_1_op1'', d) \<in> set (balanceCollection (balanceDb withdrawnState))"
    by (simp add: withdrawnState_eq operationRepository_update_fields recordOperationAction_def
          Let_def recordBalanceChanges_pair historyRepository_upsert_fields
          balanceRepository_upsert_fields BalanceRepository_upsert_def balanceId_def
          exampleState_def plannedAction_def pendingOperation_def) 
  have old: "balanceCollection (balanceDb exampleState) = []"
    by (simp add: exampleState_def)
  from written_block [OF applyAction_withdrawal] doc old
  show ?thesis
    unfolding blk using applyAction_withdrawal by fastforce
qed

section \<open>The intake loop\<close>

lemma handleActions_start:
  "handleActions c e now s = handleLoop c e now (last_irreversible_block_num c) (startSequence s) s"
  by (simp add: handleActions_def startSequence_def checkpointSequence_def ParamsRepository_get_def
        Let_def split: option.splits)

lemma processAction_effect:
  assumes "processAction e now n a s = Inr s1"
  shows "checkpointSequence s1 = Some (n + 1)"
    and "checkpointTime s1 = checkpointTime s"
    and "\<exists>ws. journal s1 = journal s @ ws @ [ParamsUpsert (sequenceCheckpoint n)]
           \<and> (\<forall>w \<in> set ws. \<forall>p. w \<noteq> ParamsUpsert p)"
proof -
  from assms obtain s' where app: "applyAction e now n a s = Inr s'"
    and s1: "s1 = paramsRepository_upsert (sequenceCheckpoint n) s'"
    by (auto simp: processAction_def sequenceCheckpoint_def split: sum.splits)
  from applyAction_writes [OF app] obtain ws where j: "journal s' = journal s @ ws"
    and np: "\<forall>w \<in> set ws. \<forall>p. w \<noteq> ParamsUpsert p"
    and pt: "paramsTable s' = paramsTable s"
    by blast
  show "checkpointSequence s1 = Some (n + 1)"
    by (simp add: s1 checkpoint_only)
  have "checkpointTime s1 = checkpointTime s'"
    by (simp add: s1 checkpoint_only)
  then show "checkpointTime s1 = checkpointTime s"
    by (simp add: checkpointTime_def pt)
  have "journal s1 = journal s @ ws @ [ParamsUpsert (sequenceCheckpoint n)]"
    by (simp add: s1 checkpoint_only j)
  with np show "\<exists>ws. journal s1 = journal s @ ws @ [ParamsUpsert (sequenceCheckpoint n)]
           \<and> (\<forall>w \<in> set ws. \<forall>p. w \<noteq> ParamsUpsert p)"
    by blast
qed

lemma irreversibleAt_action:
  "irreversibleAt c g n = (\<exists>a. actionAt c n = Some a \<and> act_block a \<le> g)"
  by (simp add: irreversibleAt_def split: option.splits)

lemma journal_grows:
  "length (journal s) \<le> length (journal (snd (handleLoop c e now g n s)))"
proof (induction c e now g n s rule: handleLoop.induct)
  case (1 c e now g n s)
  show ?case
  proof (cases "irreversibleAt c g n")
    case False
    then show ?thesis by (simp add: handleLoop_stop)
  next
    case True
    then obtain a where a: "actionAt c n = Some a" "act_block a \<le> g"
      by (auto simp: irreversibleAt_action)
    show ?thesis
    proof (cases "processAction e now n a s")
      case (Inl err)
      then show ?thesis by (simp add: handleLoop_fail [OF a])
    next
      case (Inr s1)
      from processAction_effect(3) [OF Inr] have "length (journal s) \<le> length (journal s1)"
        by auto
      moreover have "length (journal s1) \<le> length (journal (snd (handleLoop c e now g (n + 1) s1)))"
        using "1.IH" [OF a Inr] .
      ultimately show ?thesis
        by (simp add: handleLoop_step [OF a Inr])
    qed
  qed
qed

lemma handleLoop_stops_iff:
  "(handleLoop c e now g n s = (Inr g, s)) = (\<not> irreversibleAt c g n)"
proof
  assume stop: "handleLoop c e now g n s = (Inr g, s)"
  show "\<not> irreversibleAt c g n"
  proof
    assume "irreversibleAt c g n"
    then obtain a where a: "actionAt c n = Some a" "act_block a \<le> g"
      by (auto simp: irreversibleAt_action)
    show False
    proof (cases "processAction e now n a s")
      case (Inl err)
      with stop show False by (simp add: handleLoop_fail [OF a])
    next
      case (Inr s1)
      from processAction_effect(3) [OF Inr] have "length (journal s) < length (journal s1)"
        by auto
      also have "\<dots> \<le> length (journal (snd (handleLoop c e now g (n + 1) s1)))"
        by (rule journal_grows)
      finally show False
        using stop by (simp add: handleLoop_step [OF a Inr])
    qed
  qed
next
  assume "\<not> irreversibleAt c g n"
  then show "handleLoop c e now g n s = (Inr g, s)" by (rule handleLoop_stop)
qed

lemma handleLoop_result:
  "handleLoop c e now g n s = (Inr r, s') \<Longrightarrow>
   r = g \<and> (\<exists>k\<ge>n. (\<forall>i. n \<le> i \<and> i < k \<longrightarrow> irreversibleAt c g i) \<and> \<not> irreversibleAt c g k
                \<and> (k = n \<longrightarrow> s' = s) \<and> (n < k \<longrightarrow> checkpointSequence s' = Some k))"
proof (induction c e now g n s rule: handleLoop.induct)
  case (1 c e now g n s)
  show ?case
  proof (cases "irreversibleAt c g n")
    case False
    with "1.prems" have "r = g" "s' = s" by (simp_all add: handleLoop_stop)
    with False show ?thesis by auto
  next
    case True
    then obtain a where a: "actionAt c n = Some a" "act_block a \<le> g"
      by (auto simp: irreversibleAt_action)
    show ?thesis
    proof (cases "processAction e now n a s")
      case (Inl err)
      with "1.prems" show ?thesis by (simp add: handleLoop_fail [OF a])
    next
      case (Inr s1)
      with "1.prems" have "handleLoop c e now g (n + 1) s1 = (Inr r, s')"
        by (simp add: handleLoop_step [OF a Inr])
      from "1.IH" [OF a Inr this] obtain k where r: "r = g" and k: "n + 1 \<le> k"
        and irr: "\<forall>i. n + 1 \<le> i \<and> i < k \<longrightarrow> irreversibleAt c g i"
        and stop: "\<not> irreversibleAt c g k"
        and same: "k = n + 1 \<longrightarrow> s' = s1"
        and later: "n + 1 < k \<longrightarrow> checkpointSequence s' = Some k"
        by blast
      have cp: "checkpointSequence s1 = Some (n + 1)"
        by (rule processAction_effect(1) [OF Inr])
      have "\<forall>i. n \<le> i \<and> i < k \<longrightarrow> irreversibleAt c g i"
      proof (intro allI impI)
        fix i assume "n \<le> i \<and> i < k"
        then have "i = n \<or> (n + 1 \<le> i \<and> i < k)" by arith
        with True irr show "irreversibleAt c g i" by blast
      qed
      moreover have "checkpointSequence s' = Some k"
      proof (cases "k = n + 1")
        case True
        with same cp show ?thesis by simp
      next
        case False
        with k have "n + 1 < k" by arith
        with later show ?thesis by simp
      qed
      moreover from k have "n \<le> k" "k \<noteq> n" by arith+
      ultimately show ?thesis using r stop by blast
    qed
  qed
qed

text \<open>
  C1. \<^verbatim>\<open>handleActions\<close> runs the loop from the checkpoint's sequence number, 0 when
  there is no checkpoint or no number in it, with the last irreversible block number
  read once. At a sequence number the loop returns at once, normally and without a
  write, exactly when no action exists there or the action's block is beyond that
  number. When it applies an action, the stores it goes on with, to fetch the action at
  the next sequence number, already hold that next number as checkpoint, and the
  checkpoint write is the last write of the pass. A normal return yields the last
  irreversible block number; the actions from the start up to the sequence number where
  the loop stopped were all irreversible, and the checkpoint holds that sequence number
  (the stores are untouched when the loop stopped where it started).
\<close>

theorem handleActions_loop:
  "handleActions c e now s
     = handleLoop c e now (last_irreversible_block_num c) (startSequence s) s
   \<and> ((handleLoop c e now g n s = (Inr g, s)) = (\<not> irreversibleAt c g n))
   \<and> (actionAt c n = Some a \<and> act_block a \<le> g \<and> processAction e now n a s = Inr s1 \<longrightarrow>
        handleLoop c e now g n s = handleLoop c e now g (n + 1) s1
        \<and> checkpointSequence s1 = Some (n + 1)
        \<and> (\<exists>ws. journal s1 = journal s @ ws @ [ParamsUpsert (sequenceCheckpoint n)]))
   \<and> (handleActions c e now s = (Inr r, s') \<longrightarrow>
        r = last_irreversible_block_num c
        \<and> (\<exists>k\<ge>startSequence s.
              (\<forall>i. startSequence s \<le> i \<and> i < k \<longrightarrow>
                     irreversibleAt c (last_irreversible_block_num c) i)
              \<and> \<not> irreversibleAt c (last_irreversible_block_num c) k
              \<and> (k = startSequence s \<longrightarrow> s' = s)
              \<and> (startSequence s < k \<longrightarrow> checkpointSequence s' = Some k)))"
proof (intro conjI impI)
  show "handleActions c e now s
     = handleLoop c e now (last_irreversible_block_num c) (startSequence s) s"
    by (rule handleActions_start)
next
  show "(handleLoop c e now g n s = (Inr g, s)) = (\<not> irreversibleAt c g n)"
    by (rule handleLoop_stops_iff)
next
  assume h: "actionAt c n = Some a \<and> act_block a \<le> g \<and> processAction e now n a s = Inr s1"
  then show "handleLoop c e now g n s = handleLoop c e now g (n + 1) s1"
    by (simp add: handleLoop_step)
  from h processAction_effect(1) show "checkpointSequence s1 = Some (n + 1)"
    by blast
  from h have "processAction e now n a s = Inr s1" by simp
  from processAction_effect(3) [OF this]
  show "\<exists>ws. journal s1 = journal s @ ws @ [ParamsUpsert (sequenceCheckpoint n)]"
    by blast
next
  assume "handleActions c e now s = (Inr r, s')"
  then have r: "handleLoop c e now (last_irreversible_block_num c) (startSequence s) s = (Inr r, s')"
    by (simp add: handleActions_start)
  from handleLoop_result [OF r] show "r = last_irreversible_block_num c"
    by blast
  from handleLoop_result [OF r]
  show "\<exists>k\<ge>startSequence s.
              (\<forall>i. startSequence s \<le> i \<and> i < k \<longrightarrow>
                     irreversibleAt c (last_irreversible_block_num c) i)
              \<and> \<not> irreversibleAt c (last_irreversible_block_num c) k
              \<and> (k = startSequence s \<longrightarrow> s' = s)
              \<and> (startSequence s < k \<longrightarrow> checkpointSequence s' = Some k)"
    by blast
qed

lemma irreversibleAt_exampleChain:
  "irreversibleAt exampleChain 100 0" "irreversibleAt exampleChain 100 1"
  "irreversibleAt exampleChain 100 2" "\<not> irreversibleAt exampleChain 100 3"
  by code_simp+

lemma exampleTick_returns:
  "fst (handleActions exampleChain exampleEnv 50 exampleState) = Inr 100"
  by code_simp

theorem handleActions_loop_witness:
  "fst (handleActions exampleChain exampleEnv 50 exampleState) = Inr 100
   \<and> checkpointSequence (snd (handleActions exampleChain exampleEnv 50 exampleState)) = Some 3
   \<and> irreversibleAt exampleChain 100 2 \<and> \<not> irreversibleAt exampleChain 100 3
   \<and> handleLoop exampleChain exampleEnv 50 100 3 exampleState = (Inr 100, exampleState)"
proof -
  let ?s' = "snd (handleActions exampleChain exampleEnv 50 exampleState)"
  note inst = handleActions_loop [of exampleChain exampleEnv 50 exampleState 100 3 voteAction
      exampleState 100 ?s']
  have lib: "last_irreversible_block_num exampleChain = 100"
    by (simp add: exampleChain_def)
  have start: "startSequence exampleState = 0"
    by (simp add: startSequence_def checkpointSequence_def exampleState_def)
  have ret: "handleActions exampleChain exampleEnv 50 exampleState = (Inr 100, ?s')"
    using exampleTick_returns by (simp add: prod_eq_iff)
  note c2 = inst [THEN conjunct2, THEN conjunct1]
  note c4 = inst [THEN conjunct2, THEN conjunct2, THEN conjunct2, THEN mp, OF ret, THEN conjunct2]
  from c4 obtain k where all: "\<forall>i. i < k \<longrightarrow> irreversibleAt exampleChain 100 i"
    and stop: "\<not> irreversibleAt exampleChain 100 k"
    and cp: "0 < k \<longrightarrow> checkpointSequence ?s' = Some k"
    unfolding lib start by auto
  from all irreversibleAt_exampleChain(4) have "\<not> 3 < k" by blast
  moreover have "k \<noteq> 0"
  proof
    assume "k = 0"
    with stop irreversibleAt_exampleChain(1) show False by simp
  qed
  moreover have "k \<noteq> 1"
  proof
    assume "k = 1"
    with stop irreversibleAt_exampleChain(2) show False by simp
  qed
  moreover have "k \<noteq> 2"
  proof
    assume "k = 2"
    with stop irreversibleAt_exampleChain(3) show False by simp
  qed
  ultimately have "k = 3" by arith
  with cp have "checkpointSequence ?s' = Some 3" by simp
  moreover from c2 irreversibleAt_exampleChain(4)
  have "handleLoop exampleChain exampleEnv 50 100 3 exampleState = (Inr 100, exampleState)"
    by simp
  ultimately show ?thesis
    using exampleTick_returns irreversibleAt_exampleChain by simp
qed

section \<open>The expiry sweep\<close>

lemma expired_entity:
  "isFailed (mergeOperation (expiry now) operation)"
  "FailTime (mergeOperation (expiry now) operation) = Some now"
  "Operation_ErrorCode (mergeOperation (expiry now) operation) = Some buildingShouldBeRepeated"
  "Error (mergeOperation (expiry now) operation) = Some ''Transaction expired''"
  "isCompleted (mergeOperation (expiry now) operation) = isCompleted operation"
  by (simp_all add: isFailed_def isCompleted_def mergeOperation_def expiry_def)

lemma expireOperation_cases:
  "expireOperation now s i =
     (case operationTable (operationStore s) i of
        None \<Rightarrow> s
      | Some operation \<Rightarrow>
          if \<not> isCompleted operation \<and> \<not> isFailed operation
          then operationRepository_update i (expiry now) s else s)"
  by (simp add: expireOperation_def OperationRepository_get_def expiry_def split: option.splits)

lemma expireOperation_fields:
  "paramsTable (expireOperation now s i) = paramsTable s"
  "balanceDb (expireOperation now s i) = balanceDb s"
  "historyTable (expireOperation now s i) = historyTable s"
  "expiryIndex (operationStore (expireOperation now s i)) = expiryIndex (operationStore s)"
  "txIndex (operationStore (expireOperation now s i)) = txIndex (operationStore s)"
  "actionsIndex (operationStore (expireOperation now s i)) = actionsIndex (operationStore s)"
  by (simp_all add: expireOperation_cases operationRepository_update_fields
        OperationRepository_update_def split: option.splits)

lemma expireOperation_table:
  "operationTable (operationStore (expireOperation now s i))
     = swept now [i] (operationTable (operationStore s))"
  by (rule ext)
     (auto simp: expireOperation_cases operationRepository_update_fields
        OperationRepository_update_def swept_def split: option.splits)

lemma expireOperation_journal:
  "journal (expireOperation now s i) = journal s
   \<or> journal (expireOperation now s i) = journal s @ [OperationUpdate i (expiry now)]"
  by (simp add: expireOperation_cases operationRepository_update_fields split: option.splits)

lemma swept_Cons:
  "swept now ids (swept now [i] table) = swept now (i # ids) table"
  by (rule ext) (auto simp: swept_def expired_entity split: option.splits)

lemma swept_twice:
  "swept now2 ids (swept now ids table) = swept now ids table"
  by (rule ext) (auto simp: swept_def expired_entity split: option.splits)

lemma sweep_fields:
  "paramsTable (foldl (expireOperation now) s ids) = paramsTable s
   \<and> balanceDb (foldl (expireOperation now) s ids) = balanceDb s
   \<and> historyTable (foldl (expireOperation now) s ids) = historyTable s
   \<and> expiryIndex (operationStore (foldl (expireOperation now) s ids)) = expiryIndex (operationStore s)
   \<and> txIndex (operationStore (foldl (expireOperation now) s ids)) = txIndex (operationStore s)
   \<and> actionsIndex (operationStore (foldl (expireOperation now) s ids))
       = actionsIndex (operationStore s)
   \<and> operationTable (operationStore (foldl (expireOperation now) s ids))
       = swept now ids (operationTable (operationStore s))"
proof (induction ids arbitrary: s)
  case Nil
  show ?case by (simp add: swept_def fun_eq_iff split: option.splits)
next
  case (Cons i ids)
  show ?case
    by (simp add: Cons.IH [of "expireOperation now s i"] expireOperation_fields
          expireOperation_table swept_Cons)
qed

lemma sweep_journal:
  "\<exists>ws. journal (foldl (expireOperation now) s ids) = journal s @ ws
      \<and> (\<forall>w \<in> set ws. \<exists>i. w = OperationUpdate i (expiry now))"
proof (induction ids arbitrary: s)
  case Nil
  show ?case by simp
next
  case (Cons i ids)
  from Cons.IH [of "expireOperation now s i"] obtain ws
    where ws: "journal (foldl (expireOperation now) (expireOperation now s i) ids)
                = journal (expireOperation now s i) @ ws"
      and up: "\<forall>w \<in> set ws. \<exists>i. w = OperationUpdate i (expiry now)"
    by blast
  from expireOperation_journal [of now s i] show ?case
  proof
    assume "journal (expireOperation now s i) = journal s"
    with ws up show ?thesis by auto
  next
    assume "journal (expireOperation now s i) = journal s @ [OperationUpdate i (expiry now)]"
    with ws have "journal (foldl (expireOperation now) s (i # ids))
        = journal s @ (OperationUpdate i (expiry now) # ws)"
      by simp
    moreover from up have "\<forall>w \<in> set (OperationUpdate i (expiry now) # ws).
        \<exists>i. w = OperationUpdate i (expiry now)"
      by auto
    ultimately show ?thesis by blast
  qed
qed

text \<open>A sweep over operations that are all completed, failed or missing writes nothing.\<close>

lemma sweep_nothing:
  "(\<forall>i \<in> set ids. case operationTable (operationStore s) i of
                        None \<Rightarrow> True
                      | Some operation \<Rightarrow> isCompleted operation \<or> isFailed operation) \<Longrightarrow>
   foldl (expireOperation now) s ids = s"
proof (induction ids arbitrary: s)
  case Nil
  show ?case by simp
next
  case (Cons i ids)
  from Cons.prems have "expireOperation now s i = s"
    by (auto simp: expireOperation_cases split: option.splits)
  with Cons show ?case by simp
qed

lemma swept_terminal:
  "i \<in> set ids \<Longrightarrow>
   (case swept now ids table i of
      None \<Rightarrow> True
    | Some operation \<Rightarrow> isCompleted operation \<or> isFailed operation)"
  by (auto simp: swept_def expired_entity split: option.splits)

lemma handleExpired_unfold:
  "blockTimestamp c n = Some timestamp \<Longrightarrow>
   handleExpired c e now n s =
     (Inr (),
      paramsRepository_upsert (timeCheckpoint (isoUTC e timestamp))
        (foldl (expireOperation now) s
           (geOperationIdByExpiryTime (operationStore s) (lastProcessedTime (paramsTable s))
              (isoUTC e timestamp))))"
  by (simp add: handleExpired_def Let_def ParamsRepository_get_def timeCheckpoint_def)

lemma timeCheckpoint_only:
  "balanceDb (paramsRepository_upsert (timeCheckpoint t) s) = balanceDb s"
  "historyTable (paramsRepository_upsert (timeCheckpoint t) s) = historyTable s"
  "operationStore (paramsRepository_upsert (timeCheckpoint t) s) = operationStore s"
  "journal (paramsRepository_upsert (timeCheckpoint t) s) = journal s @ [ParamsUpsert (timeCheckpoint t)]"
  "checkpointTime (paramsRepository_upsert (timeCheckpoint t) s) = Some t"
  "checkpointSequence (paramsRepository_upsert (timeCheckpoint t) s) = checkpointSequence s"
  by (simp_all add: paramsRepository_upsert_fields checkpointSequence_def checkpointTime_def
        ParamsRepository_upsert_def insertOrMerge_def ParamsRepository_entity_def
        timeCheckpoint_def split: option.splits)

text \<open>
  C5. When block \<open>n\<close> exists, \<^verbatim>\<open>handleExpired(n)\<close> returns normally. It asks the expiry
  query for the range from the checkpointed time, 0 when the checkpoint holds none, to
  the timestamp of block \<open>n\<close>. Of the operations the query names, exactly those that
  are neither completed nor failed receive the expiry write, which makes them failed
  with the fail time and the error code \<open>buildingShouldBeRepeated\<close>; every other
  operation is as it was. The checkpoint write with the new time is the last write, and
  the checkpoint then holds that time. A second sweep over the same range (the
  checkpointed time put back to what it was) makes no operation write at all: it only
  writes the checkpoint again.
\<close>

theorem expiry_sweep:
  assumes "blockTimestamp c n = Some timestamp"
  shows "\<exists>s'. handleExpired c e now n s = (Inr (), s')
    \<and> operationTable (operationStore s')
        = swept now
            (geOperationIdByExpiryTime (operationStore s) (lastProcessedTime (paramsTable s))
               (isoUTC e timestamp))
            (operationTable (operationStore s))
    \<and> (checkpointTime s = None \<longrightarrow> lastProcessedTime (paramsTable s) = 0)
    \<and> (\<forall>t. checkpointTime s = Some t \<longrightarrow> lastProcessedTime (paramsTable s) = t)
    \<and> (\<forall>operation. isFailed (mergeOperation (expiry now) operation)
          \<and> FailTime (mergeOperation (expiry now) operation) = Some now
          \<and> Operation_ErrorCode (mergeOperation (expiry now) operation)
              = Some buildingShouldBeRepeated)
    \<and> checkpointTime s' = Some (isoUTC e timestamp)
    \<and> (\<exists>ws. journal s'
               = journal s @ ws @ [ParamsUpsert (timeCheckpoint (isoUTC e timestamp))]
             \<and> (\<forall>w \<in> set ws. \<exists>i. w = OperationUpdate i (expiry now)))
    \<and> handleExpired c e now2 n (s'\<lparr>paramsTable := paramsTable s\<rparr>)
        = (Inr (),
           paramsRepository_upsert (timeCheckpoint (isoUTC e timestamp))
             (s'\<lparr>paramsTable := paramsTable s\<rparr>))"
proof -
  let ?t = "isoUTC e timestamp"
  let ?ids = "geOperationIdByExpiryTime (operationStore s) (lastProcessedTime (paramsTable s)) ?t"
  let ?s1 = "foldl (expireOperation now) s ?ids"
  let ?s' = "paramsRepository_upsert (timeCheckpoint ?t) ?s1"
  let ?s2 = "?s'\<lparr>paramsTable := paramsTable s\<rparr>"
  have run: "handleExpired c e now n s = (Inr (), ?s')"
    by (rule handleExpired_unfold [OF assms])
  have table: "operationTable (operationStore ?s') = swept now ?ids (operationTable (operationStore s))"
    by (simp add: timeCheckpoint_only sweep_fields)
  have lower: "(checkpointTime s = None \<longrightarrow> lastProcessedTime (paramsTable s) = 0)
      \<and> (\<forall>t. checkpointTime s = Some t \<longrightarrow> lastProcessedTime (paramsTable s) = t)"
    by (simp add: checkpointTime_def lastProcessedTime_def split: option.splits)
  from sweep_journal [of now s ?ids] obtain ws where "journal ?s1 = journal s @ ws"
    and ws: "\<forall>w \<in> set ws. \<exists>i. w = OperationUpdate i (expiry now)"
    by blast
  then have j: "journal ?s' = journal s @ ws @ [ParamsUpsert (timeCheckpoint ?t)]"
    by (simp add: timeCheckpoint_only)
  have ids2: "geOperationIdByExpiryTime (operationStore ?s2) (lastProcessedTime (paramsTable ?s2)) ?t
      = ?ids"
    by (simp add: geOperationIdByExpiryTime_def timeCheckpoint_only sweep_fields)
  have "\<forall>i \<in> set ?ids. case operationTable (operationStore ?s2) i of
                        None \<Rightarrow> True
                      | Some operation \<Rightarrow> isCompleted operation \<or> isFailed operation"
    by (simp add: timeCheckpoint_only sweep_fields swept_terminal)
  then have idle: "foldl (expireOperation now2) ?s2 ?ids = ?s2"
    by (rule sweep_nothing)
  have "handleExpired c e now2 n ?s2
      = (Inr (),
         paramsRepository_upsert (timeCheckpoint ?t)
           (foldl (expireOperation now2) ?s2
              (geOperationIdByExpiryTime (operationStore ?s2)
                 (lastProcessedTime (paramsTable ?s2)) ?t)))"
    by (rule handleExpired_unfold [OF assms])
  then have again: "handleExpired c e now2 n ?s2
      = (Inr (), paramsRepository_upsert (timeCheckpoint ?t) ?s2)"
    by (simp only: ids2 idle)
  show ?thesis
    using run table lower j ws again
    by (simp add: expired_entity timeCheckpoint_only)
qed


lemma withdrawnState_stores:
  "paramsTable withdrawnState = None"
  "operationStore withdrawnState
     = OperationRepository_update ''op1'' (completion 50 3000 920) exampleOperations"
  by (simp_all add: withdrawnState_eq operationRepository_update_fields
        recordOperationAction_fields exampleState_def)

theorem expiry_sweep_witness:
  "\<exists>s'. handleExpired exampleChain exampleEnv 60 100 withdrawnState = (Inr (), s')
    \<and> checkpointTime s' = Some 5000
    \<and> map_option isFailed (operationTable (operationStore s') ''op2'') = Some True
    \<and> map_option FailTime (operationTable (operationStore s') ''op2'') = Some (Some 60)
    \<and> map_option Operation_ErrorCode (operationTable (operationStore s') ''op2'')
        = Some (Some buildingShouldBeRepeated)
    \<and> map_option isFailed (operationTable (operationStore s') ''op1'') = Some False
    \<and> handleExpired exampleChain exampleEnv 70 100 (s'\<lparr>paramsTable := paramsTable withdrawnState\<rparr>)
        = (Inr (),
           paramsRepository_upsert (timeCheckpoint 5000)
             (s'\<lparr>paramsTable := paramsTable withdrawnState\<rparr>))"
proof -
  have ts: "isoUTC exampleEnv ''5000'' = 5000"
    by (simp add: exampleEnv_def digitsValue_def digitValue_def)
  have blk: "blockTimestamp exampleChain 100 = Some ''5000''"
    by (simp add: exampleChain_def)
  have ids: "geOperationIdByExpiryTime (operationStore withdrawnState)
      (lastProcessedTime (paramsTable withdrawnState)) 5000 = [''op1'', ''op2'']"
    by (simp add: withdrawnState_stores geOperationIdByExpiryTime_def lastProcessedTime_def
          OperationRepository_update_def exampleOperations_def)
  have op2: "swept 60 [''op1'', ''op2''] (operationTable (operationStore withdrawnState)) ''op2''
      = Some (mergeOperation (expiry 60) pendingOperation)"
    by (simp add: swept_def withdrawnState_stores OperationRepository_update_def
          exampleOperations_def isCompleted_def isFailed_def pendingOperation_def)
  have op1: "swept 60 [''op1'', ''op2''] (operationTable (operationStore withdrawnState)) ''op1''
      = Some (mergeOperation (completion 50 3000 920) pendingOperation)"
    by (simp add: swept_def withdrawnState_stores OperationRepository_update_def
          exampleOperations_def isCompleted_def isFailed_def pendingOperation_def
          mergeOperation_def completion_def)
  have done1: "\<not> isFailed (mergeOperation (completion 50 3000 920) pendingOperation)"
    by (simp add: isFailed_def mergeOperation_def completion_def pendingOperation_def)
  from expiry_sweep [OF blk, of exampleEnv 60 withdrawnState 70]
  obtain s' where "handleExpired exampleChain exampleEnv 60 100 withdrawnState = (Inr (), s')"
    and "operationTable (operationStore s')
        = swept 60 [''op1'', ''op2''] (operationTable (operationStore withdrawnState))"
    and "checkpointTime s' = Some 5000"
    and "handleExpired exampleChain exampleEnv 70 100 (s'\<lparr>paramsTable := paramsTable withdrawnState\<rparr>)
        = (Inr (),
           paramsRepository_upsert (timeCheckpoint 5000)
             (s'\<lparr>paramsTable := paramsTable withdrawnState\<rparr>))"
    unfolding ts ids by blast
  then show ?thesis
    by (simp add: op1 op2 done1 expired_entity)
qed

section \<open>The two checkpoint writes\<close>

lemma handleLoop_checkpoints:
  "\<exists>ws. journal (snd (handleLoop c e now g n s)) = journal s @ ws
      \<and> (\<forall>w \<in> set ws. \<forall>p. w = ParamsUpsert p \<longrightarrow> (\<exists>k. p = sequenceCheckpoint k))
      \<and> checkpointTime (snd (handleLoop c e now g n s)) = checkpointTime s"
proof (induction c e now g n s rule: handleLoop.induct)
  case (1 c e now g n s)
  show ?case
  proof (cases "irreversibleAt c g n")
    case False
    then show ?thesis by (simp add: handleLoop_stop)
  next
    case True
    then obtain a where a: "actionAt c n = Some a" "act_block a \<le> g"
      by (auto simp: irreversibleAt_action)
    show ?thesis
    proof (cases "processAction e now n a s")
      case (Inl err)
      then show ?thesis by (simp add: handleLoop_fail [OF a])
    next
      case (Inr s1)
      let ?r = "snd (handleLoop c e now g (n + 1) s1)"
      from processAction_effect(3) [OF Inr] obtain ws1
        where j1: "journal s1 = journal s @ ws1 @ [ParamsUpsert (sequenceCheckpoint n)]"
          and np: "\<forall>w \<in> set ws1. \<forall>p. w \<noteq> ParamsUpsert p"
        by blast
      from "1.IH" [OF a Inr] obtain ws2
        where j2: "journal ?r = journal s1 @ ws2"
          and cp: "\<forall>w \<in> set ws2. \<forall>p. w = ParamsUpsert p \<longrightarrow> (\<exists>k. p = sequenceCheckpoint k)"
          and t2: "checkpointTime ?r = checkpointTime s1"
        by blast
      have "journal ?r = journal s @ (ws1 @ [ParamsUpsert (sequenceCheckpoint n)] @ ws2)"
        unfolding j2 j1 by simp
      moreover have "\<forall>w \<in> set (ws1 @ [ParamsUpsert (sequenceCheckpoint n)] @ ws2).
          \<forall>p. w = ParamsUpsert p \<longrightarrow> (\<exists>k. p = sequenceCheckpoint k)"
        using np cp by auto
      moreover have "checkpointTime ?r = checkpointTime s"
        unfolding t2 by (rule processAction_effect(2) [OF Inr])
      ultimately show ?thesis
        unfolding handleLoop_step [OF a Inr] by blast
    qed
  qed
qed

lemma handleExpired_checkpoints:
  "\<exists>ws. journal (snd (handleExpired c e now n s)) = journal s @ ws
      \<and> (\<forall>w \<in> set ws. \<forall>p. w = ParamsUpsert p \<longrightarrow> (\<exists>t. p = timeCheckpoint t))
      \<and> checkpointSequence (snd (handleExpired c e now n s)) = checkpointSequence s"
proof (cases "blockTimestamp c n")
  case None
  then show ?thesis by (simp add: handleExpired_def Let_def)
next
  case (Some timestamp)
  let ?t = "isoUTC e timestamp"
  let ?ids = "geOperationIdByExpiryTime (operationStore s) (lastProcessedTime (paramsTable s)) ?t"
  let ?s1 = "foldl (expireOperation now) s ?ids"
  from sweep_journal [of now s ?ids] obtain ws where j: "journal ?s1 = journal s @ ws"
    and ws: "\<forall>w \<in> set ws. \<exists>i. w = OperationUpdate i (expiry now)"
    by blast
  have "journal (snd (handleExpired c e now n s)) = journal s @ (ws @ [ParamsUpsert (timeCheckpoint ?t)])"
    by (simp add: handleExpired_unfold [OF Some] timeCheckpoint_only j)
  moreover have "\<forall>w \<in> set (ws @ [ParamsUpsert (timeCheckpoint ?t)]).
      \<forall>p. w = ParamsUpsert p \<longrightarrow> (\<exists>t. p = timeCheckpoint t)"
    using ws by auto
  moreover have "checkpointSequence (snd (handleExpired c e now n s)) = checkpointSequence s"
  proof -
    have "checkpointSequence (snd (handleExpired c e now n s)) = checkpointSequence ?s1"
      by (simp add: handleExpired_unfold [OF Some] timeCheckpoint_only)
    also have "\<dots> = checkpointSequence s"
      by (simp add: checkpointSequence_def sweep_fields)
    finally show ?thesis .
  qed
  ultimately show ?thesis by blast
qed

text \<open>
  C10. The entity that \<^verbatim>\<open>ParamsRepository.upsert\<close> builds for the write of the intake
  loop has the sequence number and no time; the entity for the write of the sweep has
  the time and no sequence number. Written through insert-or-merge, the first leaves the
  stored time as it was and the second leaves the stored sequence number as it was. All
  checkpoint writes of \<^verbatim>\<open>handleActions\<close> are of the first kind and the stored time is the
  same after it as before; all checkpoint writes of \<^verbatim>\<open>handleExpired\<close> are of the second
  kind and the stored sequence number is the same after it as before.
\<close>

theorem checkpoint_fields:
  "ParamsRepository_entity (sequenceCheckpoint k)
     = \<lparr>LastProcessedIrreversibleBlockTime = None, NextActionSequence = Some (k + 1)\<rparr>
   \<and> ParamsRepository_entity (timeCheckpoint t)
     = \<lparr>LastProcessedIrreversibleBlockTime = Some t, NextActionSequence = None\<rparr>
   \<and> checkpointTime (paramsRepository_upsert (sequenceCheckpoint k) s) = checkpointTime s
   \<and> checkpointSequence (paramsRepository_upsert (sequenceCheckpoint k) s) = Some (k + 1)
   \<and> checkpointSequence (paramsRepository_upsert (timeCheckpoint t) s) = checkpointSequence s
   \<and> checkpointTime (paramsRepository_upsert (timeCheckpoint t) s) = Some t
   \<and> (\<exists>ws. journal (snd (handleActions c e now s)) = journal s @ ws
         \<and> (\<forall>w \<in> set ws. \<forall>p. w = ParamsUpsert p \<longrightarrow> (\<exists>k. p = sequenceCheckpoint k)))
   \<and> checkpointTime (snd (handleActions c e now s)) = checkpointTime s
   \<and> (\<exists>ws. journal (snd (handleExpired c e now n s)) = journal s @ ws
         \<and> (\<forall>w \<in> set ws. \<forall>p. w = ParamsUpsert p \<longrightarrow> (\<exists>t. p = timeCheckpoint t)))
   \<and> checkpointSequence (snd (handleExpired c e now n s)) = checkpointSequence s"
proof -
  have entity: "ParamsRepository_entity (sequenceCheckpoint k)
     = \<lparr>LastProcessedIrreversibleBlockTime = None, NextActionSequence = Some (k + 1)\<rparr>"
    "ParamsRepository_entity (timeCheckpoint t)
     = \<lparr>LastProcessedIrreversibleBlockTime = Some t, NextActionSequence = None\<rparr>"
    by (simp_all add: ParamsRepository_entity_def sequenceCheckpoint_def timeCheckpoint_def)
  from handleLoop_checkpoints [of c e now "last_irreversible_block_num c" "startSequence s" s]
  have intake: "(\<exists>ws. journal (snd (handleActions c e now s)) = journal s @ ws
         \<and> (\<forall>w \<in> set ws. \<forall>p. w = ParamsUpsert p \<longrightarrow> (\<exists>k. p = sequenceCheckpoint k)))
      \<and> checkpointTime (snd (handleActions c e now s)) = checkpointTime s"
    unfolding handleActions_start by blast
  from handleExpired_checkpoints [of c e now n s]
  have sweep: "(\<exists>ws. journal (snd (handleExpired c e now n s)) = journal s @ ws
         \<and> (\<forall>w \<in> set ws. \<forall>p. w = ParamsUpsert p \<longrightarrow> (\<exists>t. p = timeCheckpoint t)))
      \<and> checkpointSequence (snd (handleExpired c e now n s)) = checkpointSequence s"
    by blast
  show ?thesis
    using entity intake sweep by (simp add: checkpoint_only timeCheckpoint_only)
qed

theorem checkpoint_fields_witness:
  "checkpointTime
     (snd (handleActions exampleChain exampleEnv 50
             (paramsRepository_upsert (timeCheckpoint 4200) exampleState))) = Some 4200
   \<and> checkpointSequence
       (snd (handleExpired exampleChain exampleEnv 60 100
               (paramsRepository_upsert (sequenceCheckpoint 2) exampleState))) = Some 3
   \<and> LastProcessedIrreversibleBlockTime (ParamsRepository_entity (sequenceCheckpoint 2)) = None
   \<and> NextActionSequence (ParamsRepository_entity (timeCheckpoint 4200)) = None"
proof -
  note intake = checkpoint_fields [of 2 4200
      "paramsRepository_upsert (timeCheckpoint 4200) exampleState" exampleChain exampleEnv 50 100]
  note sweep = checkpoint_fields [of 2 4200
      "paramsRepository_upsert (sequenceCheckpoint 2) exampleState" exampleChain exampleEnv 60 100]
  have "checkpointTime
     (snd (handleActions exampleChain exampleEnv 50
             (paramsRepository_upsert (timeCheckpoint 4200) exampleState)))
     = checkpointTime (paramsRepository_upsert (timeCheckpoint 4200) exampleState)"
    using intake by blast
  moreover have "checkpointSequence
       (snd (handleExpired exampleChain exampleEnv 60 100
               (paramsRepository_upsert (sequenceCheckpoint 2) exampleState)))
     = checkpointSequence (paramsRepository_upsert (sequenceCheckpoint 2) exampleState)"
    using sweep by blast
  moreover have "LastProcessedIrreversibleBlockTime (ParamsRepository_entity (sequenceCheckpoint 2)) = None"
    "NextActionSequence (ParamsRepository_entity (timeCheckpoint 4200)) = None"
    using intake by simp_all
  ultimately show ?thesis
    by (simp add: checkpoint_only timeCheckpoint_only)
qed

section \<open>The paginated query\<close>

lemma digitValue_digit_char:
  "d < 10 \<Longrightarrow> digitValue (digit_char d) = Some d"
proof -
  assume "d < 10"
  then have "d \<in> {0, 1, 2, 3, 4, 5, 6, 7, 8, 9}" by auto
  then show ?thesis
    by (auto simp: digitValue_def digit_char_def)
qed

lemma digit_char_plain:
  assumes "d < 10"
  shows "\<not> isWhiteSpace (digit_char d)" "digit_char d \<noteq> CHR ''-''" "digit_char d \<noteq> CHR ''+''"
    "digit_char d \<noteq> CHR ''x''" "digit_char d \<noteq> CHR ''X''"
proof -
  from assms have "d \<in> {0, 1, 2, 3, 4, 5, 6, 7, 8, 9}" by auto
  then show "\<not> isWhiteSpace (digit_char d)" "digit_char d \<noteq> CHR ''-''"
    "digit_char d \<noteq> CHR ''+''" "digit_char d \<noteq> CHR ''x''" "digit_char d \<noteq> CHR ''X''"
    by (auto simp: isWhiteSpace_def digit_char_def)
qed

lemma parseDigits_snoc:
  "\<forall>c \<in> set cs. digitValue c \<noteq> None \<Longrightarrow> digitValue c = Some d \<Longrightarrow>
   parseDigits 10 digitValue acc (cs @ [c]) =
     Some (10 * (case parseDigits 10 digitValue acc cs of None \<Rightarrow> 0 | Some a \<Rightarrow> a) + d)"
  by (induction cs arbitrary: acc) auto

lemma decimal_digits:
  "(\<forall>c \<in> set (decimal n). digitValue c \<noteq> None) \<and> parseDigits 10 digitValue None (decimal n) = Some n"
proof (induction n rule: decimal.induct)
  case (1 n)
  show ?case
  proof (cases "n < 10")
    case True
    then show ?thesis
      by (subst (1 2) decimal.simps) (simp add: digitValue_digit_char)
  next
    case False
    have d: "digitValue (digit_char (n mod 10)) = Some (n mod 10)"
      by (simp add: digitValue_digit_char)
    from "1.IH" [OF False]
    have ih: "\<forall>c \<in> set (decimal (n div 10)). digitValue c \<noteq> None"
      "parseDigits 10 digitValue None (decimal (n div 10)) = Some (n div 10)"
      by blast+
    have dec: "decimal n = decimal (n div 10) @ [digit_char (n mod 10)]"
      using False by (subst decimal.simps) simp
    show ?thesis
      unfolding dec using ih d by (simp add: parseDigits_snoc)
  qed
qed

lemma decimal_shape:
  "\<exists>c cs. decimal n = c # cs \<and> \<not> isWhiteSpace c \<and> c \<noteq> CHR ''-'' \<and> c \<noteq> CHR ''+''
     \<and> (\<forall>c' \<in> set (c # cs). c' \<noteq> CHR ''x'' \<and> c' \<noteq> CHR ''X'')"
proof (induction n rule: decimal.induct)
  case (1 n)
  show ?case
  proof (cases "n < 10")
    case True
    then show ?thesis
      by (subst decimal.simps) (simp add: digit_char_plain)
  next
    case False
    from "1.IH" [OF False] obtain c cs where "decimal (n div 10) = c # cs"
      and "\<not> isWhiteSpace c" "c \<noteq> CHR ''-''" "c \<noteq> CHR ''+''"
      and "\<forall>c' \<in> set (c # cs). c' \<noteq> CHR ''x'' \<and> c' \<noteq> CHR ''X''"
      by blast
    moreover have "decimal n = decimal (n div 10) @ [digit_char (n mod 10)]"
      using False by (subst decimal.simps) simp
    ultimately show ?thesis
      by (simp add: digit_char_plain)
  qed
qed

lemma parseInt_decimal: "parseInt (Some (decimal n)) = Some (int n)"
proof -
  from decimal_shape [of n] obtain c cs where s: "decimal n = c # cs"
    and c: "\<not> isWhiteSpace c" "c \<noteq> CHR ''-''" "c \<noteq> CHR ''+''"
    and x: "\<forall>c' \<in> set (c # cs). c' \<noteq> CHR ''x'' \<and> c' \<noteq> CHR ''X''"
    by blast
  have p: "parseDigits 10 digitValue None (c # cs) = Some n"
    using decimal_digits [of n] by (simp add: s)
  show ?thesis
  proof (cases cs)
    case Nil
    with p c show ?thesis
      by (simp add: parseInt_def s Let_def del: parseDigits.simps)
  next
    case (Cons c1 r)
    with x have "c1 \<noteq> CHR ''x''" "c1 \<noteq> CHR ''X''" by auto
    with p c Cons show ?thesis
      by (simp add: parseInt_def s Let_def del: parseDigits.simps)
  qed
qed

lemma skipOf_toFixed: "skipOf (Some (toFixed (int m))) = int m"
  by (simp add: skipOf_def toFixed_def parseInt_decimal)

lemma skipOf_absent: "skipOf None = 0"
  by (simp add: skipOf_def parseInt_def)

lemma getPage_page:
  assumes "0 < p" and "skipOf token = int k"
  shows "BalanceRepository_getPage db (int p) token =
     Inr \<lparr>items = take p (drop k (observableGroups db)),
          continuation =
            (if length (take p (drop k (observableGroups db))) < p then None
             else Some (toFixed (int (k + p))))\<rparr>"
  using assms by (simp add: BalanceRepository_getPage_def skipOf_def Let_def)

lemma readPages_last:
  "BalanceRepository_getPage db pageSize token = Inr page \<Longrightarrow> continuation page = None \<Longrightarrow>
   readPages (Suc fuel) db pageSize token = Some [items page]"
  by (simp add: readPages.simps)

lemma readPages_more:
  "BalanceRepository_getPage db pageSize token = Inr page \<Longrightarrow>
   continuation page = Some next_token \<Longrightarrow>
   readPages (Suc fuel) db pageSize token =
     map_option (\<lambda>pages. items page # pages) (readPages fuel db pageSize (Some next_token))"
  by (simp add: readPages.simps)

lemma readPages_all:
  assumes "0 < p"
  shows "skipOf token = int k \<Longrightarrow> (length (observableGroups db) - k) div p = m \<Longrightarrow>
    \<exists>pages. readPages (Suc m) db (int p) token = Some pages
      \<and> concat pages = drop k (observableGroups db)
      \<and> length pages = Suc m
      \<and> ((length (observableGroups db) - k) mod p = 0 \<longrightarrow> last pages = [])"
proof (induction m arbitrary: token k)
  case 0
  let ?gs = "observableGroups db"
  let ?page = "\<lparr>items = drop k ?gs, continuation = None\<rparr>"
  from 0 assms have small: "length ?gs - k < p"
    by (simp add: div_eq_0_iff)
  then have "BalanceRepository_getPage db (int p) token = Inr ?page"
    by (simp add: getPage_page [OF assms "0.prems"(1)])
  then have "readPages (Suc 0) db (int p) token = Some [items ?page]"
    by (rule readPages_last) simp
  then have run: "readPages (Suc 0) db (int p) token = Some [drop k ?gs]"
    by simp
  have empty: "last [drop k ?gs] = []" if "(length ?gs - k) mod p = 0"
  proof -
    from that small have "length ?gs - k = 0" by simp
    then show ?thesis by simp
  qed
  show ?case
  proof (rule exI [of _ "[drop k ?gs]"], intro conjI impI)
    show "readPages (Suc 0) db (int p) token = Some [drop k ?gs]" by (rule run)
    show "concat [drop k ?gs] = drop k ?gs" by simp
    show "length [drop k ?gs] = Suc 0" by simp
    show "last [drop k ?gs] = []" if "(length ?gs - k) mod p = 0"
      using that by (rule empty)
  qed
next
  case (Suc m)
  let ?gs = "observableGroups db"
  let ?R = "length ?gs - k"
  let ?page = "\<lparr>items = take p (drop k ?gs), continuation = Some (toFixed (int (k + p)))\<rparr>"
  have big: "p \<le> ?R"
  proof (rule ccontr)
    assume "\<not> p \<le> ?R"
    then have "?R div p = 0" by simp
    with Suc.prems(2) show False by simp
  qed
  then have full: "length (take p (drop k ?gs)) = p" by simp
  have page: "BalanceRepository_getPage db (int p) token = Inr ?page"
    using full by (simp add: getPage_page [OF assms Suc.prems(1)])
  have next_skip: "skipOf (Some (toFixed (int (k + p)))) = int (k + p)"
    by (rule skipOf_toFixed)
  have "(length ?gs - (k + p)) div p = m"
  proof -
    have "length ?gs - (k + p) = ?R - p" by simp
    moreover from big assms have "?R div p = Suc ((?R - p) div p)"
      by (simp add: le_div_geq)
    ultimately show ?thesis using Suc.prems(2) by simp
  qed
  from Suc.IH [OF next_skip this] obtain pages
    where rest: "readPages (Suc m) db (int p) (Some (toFixed (int (k + p)))) = Some pages"
      and cat: "concat pages = drop (k + p) ?gs"
      and len: "length pages = Suc m"
      and final: "(length ?gs - (k + p)) mod p = 0 \<longrightarrow> last pages = []"
    by (elim exE conjE)
  have "readPages (Suc (Suc m)) db (int p) token
      = map_option (\<lambda>pages. items ?page # pages)
          (readPages (Suc m) db (int p) (Some (toFixed (int (k + p)))))"
    by (rule readPages_more [OF page]) simp
  then have run: "readPages (Suc (Suc m)) db (int p) token = Some (take p (drop k ?gs) # pages)"
    unfolding rest by simp
  have whole: "concat (take p (drop k ?gs) # pages) = drop k ?gs"
  proof -
    have "drop (k + p) ?gs = drop p (drop k ?gs)" by (simp add: add.commute)
    then have "concat pages = drop p (drop k ?gs)" by (simp only: cat)
    then show ?thesis by (simp only: concat.simps append_take_drop_id)
  qed
  have tail: "last (take p (drop k ?gs) # pages) = []" if "?R mod p = 0"
  proof -
    have "(length ?gs - (k + p)) mod p = ?R mod p"
      using big by (simp add: le_mod_geq)
    with that have "(length ?gs - (k + p)) mod p = 0" by simp
    with final have "last pages = []" by (rule mp)
    moreover from len have "pages \<noteq> []" by auto
    ultimately show ?thesis by simp
  qed
  show ?case
  proof (rule exI [of _ "take p (drop k ?gs) # pages"], intro conjI impI)
    show "readPages (Suc (Suc m)) db (int p) token = Some (take p (drop k ?gs) # pages)"
      by (rule run)
    show "concat (take p (drop k ?gs) # pages) = drop k ?gs" by (rule whole)
    show "length (take p (drop k ?gs) # pages) = Suc (Suc m)" using len by simp
    show "last (take p (drop k ?gs) # pages) = []" if "?R mod p = 0"
      using that by (rule tail)
  qed
qed


text \<open>
  C7, as the code has it. For a positive page size and an offset that is not negative,
  \<^verbatim>\<open>get(take, continuation)\<close> returns the groups from the offset, at most \<open>take\<close> of
  them; the token is absent exactly when fewer than \<open>take\<close> groups are returned, and is
  otherwise the decimal string of offset plus \<open>take\<close>, which reads back as that offset.
  A page without token holds all groups that remain at its offset. A reader that follows
  the tokens finishes after \<open>R div P + 1\<close> requests, \<open>R\<close> being the number of groups
  that remain at the first offset and \<open>P\<close> the page size, and its pages together are
  exactly those groups. When \<open>R\<close> is a multiple of \<open>P\<close> the last page is empty: the
  page that returns the last groups still carries a token.
\<close>

theorem pagination:
  assumes "0 < pageSize" and "0 \<le> skipOf token"
  shows "\<exists>page pages.
      BalanceRepository_getPage db pageSize token = Inr page
    \<and> items page = take (nat pageSize) (drop (nat (skipOf token)) (observableGroups db))
    \<and> (continuation page = None) = (int (length (items page)) < pageSize)
    \<and> (continuation page \<noteq> None \<longrightarrow>
          continuation page = Some (toFixed (skipOf token + pageSize))
          \<and> skipOf (continuation page) = skipOf token + pageSize)
    \<and> (continuation page = None \<longrightarrow>
          items page = drop (nat (skipOf token)) (observableGroups db))
    \<and> readPages (Suc ((length (observableGroups db) - nat (skipOf token)) div nat pageSize))
          db pageSize token = Some pages
    \<and> concat pages = drop (nat (skipOf token)) (observableGroups db)
    \<and> length pages = Suc ((length (observableGroups db) - nat (skipOf token)) div nat pageSize)
    \<and> ((length (observableGroups db) - nat (skipOf token)) mod nat pageSize = 0 \<longrightarrow>
          last pages = [])"
proof -
  let ?p = "nat pageSize" and ?k = "nat (skipOf token)" and ?gs = "observableGroups db"
  let ?its = "take ?p (drop ?k ?gs)"
  let ?page = "\<lparr>items = ?its,
                continuation = (if length ?its < ?p then None else Some (toFixed (int (?k + ?p))))\<rparr>"
  from assms have p: "0 < ?p" "int ?p = pageSize" and k: "skipOf token = int ?k"
    by simp_all
  have get: "BalanceRepository_getPage db pageSize token = Inr ?page"
    using getPage_page [OF p(1) k, of db] by (simp only: p(2))
  have sum: "int (?k + ?p) = skipOf token + pageSize"
    using assms by simp
  have null: "(continuation ?page = None) = (int (length (items ?page)) < pageSize)"
    using p by auto
  have tok: "continuation ?page = Some (toFixed (skipOf token + pageSize))
      \<and> skipOf (continuation ?page) = skipOf token + pageSize"
    if "continuation ?page \<noteq> None"
  proof -
    from that have "continuation ?page = Some (toFixed (int (?k + ?p)))"
      by (simp split: if_splits)
    then show ?thesis
      by (simp only: skipOf_toFixed sum [symmetric])
  qed
  have fin: "items ?page = drop ?k ?gs" if "continuation ?page = None"
  proof -
    from that have "length ?its < ?p" by (simp split: if_splits)
    then have "length (drop ?k ?gs) < ?p" by simp
    then show ?thesis by simp
  qed
  from readPages_all [OF p(1) k refl, of db] obtain pages
    where run: "readPages (Suc ((length ?gs - ?k) div ?p)) db (int ?p) token = Some pages"
      and cat: "concat pages = drop ?k ?gs"
      and len: "length pages = Suc ((length ?gs - ?k) div ?p)"
      and lst: "(length ?gs - ?k) mod ?p = 0 \<longrightarrow> last pages = []"
    by (elim exE conjE)
  from run have run': "readPages (Suc ((length ?gs - ?k) div ?p)) db pageSize token = Some pages"
    by (simp only: p(2))
  show ?thesis
  proof (rule exI [of _ ?page], rule exI [of _ pages], intro conjI)
    show "BalanceRepository_getPage db pageSize token = Inr ?page" by (rule get)
    show "items ?page = ?its" by simp
    show "(continuation ?page = None) = (int (length (items ?page)) < pageSize)" by (rule null)
    show "continuation ?page \<noteq> None \<longrightarrow>
          continuation ?page = Some (toFixed (skipOf token + pageSize))
          \<and> skipOf (continuation ?page) = skipOf token + pageSize"
      using tok by (rule impI)
    show "continuation ?page = None \<longrightarrow> items ?page = drop ?k ?gs"
      using fin by (rule impI)
    show "readPages (Suc ((length ?gs - ?k) div ?p)) db pageSize token = Some pages" by (rule run')
    show "concat pages = drop ?k ?gs" by (rule cat)
    show "length pages = Suc ((length ?gs - ?k) div ?p)" by (rule len)
    show "(length ?gs - ?k) mod ?p = 0 \<longrightarrow> last pages = []" by (rule lst)
  qed
qed

lemma exampleGroups:
  "observableGroups exampleBalances =
     [\<lparr>groupId = (Some ''A'', Some ''1''), sumAmount = Num 4, sumAmountInBaseUnit = Num 4000,
       maxBlock = Some 20\<rparr>,
      \<lparr>groupId = (Some ''B'', Some ''1''), sumAmount = Num 1, sumAmountInBaseUnit = Num 1000,
       maxBlock = Some 20\<rparr>]"
  by (simp add: balance_eval)

text \<open>
  C7, as stated, fails where the remaining groups exactly fill a page: the example store
  has two observable groups, the first page of size 2 returns both, so nothing remains,
  and yet it carries the token \<open>2\<close>; the request with that token returns the empty
  page without token.
\<close>

theorem pagination_counterexample:
  "BalanceRepository_getPage exampleBalances 2 None
     = Inr \<lparr>items = observableGroups exampleBalances, continuation = Some ''2''\<rparr>
   \<and> drop 2 (observableGroups exampleBalances) = []
   \<and> BalanceRepository_getPage exampleBalances 2 (Some ''2'')
     = Inr \<lparr>items = [], continuation = None\<rparr>"
proof -
  have two: "parseInt (Some ''2'') = Some 2"
    by (simp add: parseInt_def isWhiteSpace_def digitValue_def Let_def)
  have absent: "parseInt None = None"
    by (simp add: parseInt_def)
  have str: "toFixed 2 = ''2''"
    by (simp add: toFixed_def decimal.simps digit_char_def)
  show ?thesis
    by (simp add: BalanceRepository_getPage_def exampleGroups two absent str Let_def)
qed

theorem pagination_witness:
  "\<exists>page pages.
      BalanceRepository_getPage exampleBalances 1 None = Inr page
    \<and> continuation page = Some ''1''
    \<and> readPages 3 exampleBalances 1 None = Some pages
    \<and> concat pages = observableGroups exampleBalances
    \<and> length pages = 3
    \<and> last pages = []"
proof -
  have len: "length (observableGroups exampleBalances) = 2"
    by (simp add: exampleGroups)
  have str: "toFixed 1 = ''1''"
    by (simp add: toFixed_def decimal.simps digit_char_def)
  have h1: "(0 :: int) < 1" and h2: "0 \<le> skipOf None"
    by (simp_all add: skipOf_absent)
  from pagination [OF h1 h2, of exampleBalances] obtain page pages
    where get: "BalanceRepository_getPage exampleBalances 1 None = Inr page"
      and null: "(continuation page = None) = (int (length (items page)) < 1)"
      and its: "items page = take (nat 1) (drop (nat (skipOf None)) (observableGroups exampleBalances))"
      and tok: "continuation page \<noteq> None \<longrightarrow>
          continuation page = Some (toFixed (skipOf None + 1))
          \<and> skipOf (continuation page) = skipOf None + 1"
      and run: "readPages (Suc ((length (observableGroups exampleBalances) - nat (skipOf None)) div nat 1))
          exampleBalances 1 None = Some pages"
      and cat: "concat pages = drop (nat (skipOf None)) (observableGroups exampleBalances)"
      and cnt: "length pages
          = Suc ((length (observableGroups exampleBalances) - nat (skipOf None)) div nat 1)"
      and lst: "(length (observableGroups exampleBalances) - nat (skipOf None)) mod nat 1 = 0 \<longrightarrow>
          last pages = []"
    by (elim exE conjE)
  from its have "length (items page) = 1"
    by (simp add: skipOf_absent exampleGroups)
  with null have "continuation page \<noteq> None" by simp
  with tok have t: "continuation page = Some ''1''"
    by (simp add: skipOf_absent str)
  from run have r: "readPages 3 exampleBalances 1 None = Some pages"
    by (simp add: skipOf_absent len numeral_3_eq_3)
  from cat have c: "concat pages = observableGroups exampleBalances"
    by (simp add: skipOf_absent)
  from cnt have n: "length pages = 3"
    by (simp add: skipOf_absent len)
  from lst have l: "last pages = []"
    by (simp add: skipOf_absent)
  from get t r c n l show ?thesis by blast
qed

end
